theory Spec2Isabelle
  imports Main "HOL-Library.Word" "HOL-Library.Finite_Map" "HOL-Library.Multiset"
    "HOL-Library.Sublist"
begin

section \<open>The page pool of the heap (src/heap/page-pool.cc)\<close>

text \<open>
  The pool recycles freed pages, zone reservations and large pages. The file holds
  three classes: the generic two-tier pool \<open>PagePool::PoolImpl\<close>, the byte-budgeted
  \<open>PagePool::LargePagePoolImpl\<close> and the facade \<open>PagePool\<close>. Each operation
  runs under the mutex of its sub-pool, so it is modelled as one atomic function from the
  state before the call to the result and the state after it.
\<close>

subsection \<open>Basic types\<close>

text \<open>
  \<open>size_t\<close> byte sizes are 64-bit words: \<open>+\<close> and \<open>-\<close> wrap as in the
  program. Numbers of entries of a container are natural numbers (a container's
  \<open>size()\<close> is the length of the list that models it).
\<close>

type_synonym size_t = "64 word"

text \<open>
  \<open>InternalTime\<close> is an unsigned counter (the values of the atomic \<open>next_time_\<close>);
  the pools only compare it with \<open>\<le>\<close>.
\<close>

type_synonym InternalTime = "64 word"

text \<open>An \<open>Isolate*\<close> is an address, used as a key only; the null pointer is 0.\<close>

type_synonym Isolate = nat

definition nullptr :: nat where
  "nullptr = 0"

text \<open>
  A failed \<open>CHECK\<close> or \<open>DCHECK\<close> aborts the process. An operation that contains
  one returns \<open>Inl CheckFailed\<close> on that path and \<open>Inr\<close> of its result otherwise.
\<close>

datatype fatal = CheckFailed

text \<open>
  Modelled from the spec: the macros \<open>CHECK\<close> and \<open>DCHECK\<close> are defined outside
  this file. \<open>CHECK\<close> is a fatal assertion in every build; the \<open>DCHECK\<close> family
  is the "debug only" check of the specification, "compiled out of production builds".
  The first argument of \<open>DCHECK\<close> says whether the build has debug checks; the last
  argument of both is the rest of the function, which runs when the assertion passes.
\<close>

definition CHECK :: "bool \<Rightarrow> fatal + 'a \<Rightarrow> fatal + 'a" where
  "CHECK cond rest = (if cond then rest else Inl CheckFailed)"

definition DCHECK :: "bool \<Rightarrow> bool \<Rightarrow> fatal + 'a \<Rightarrow> fatal + 'a" where
  "DCHECK debug cond rest = (if debug \<and> \<not> cond then Inl CheckFailed else rest)"

text \<open>
  \<open>std::erase_if\<close> on a vector, with a predicate that updates captured variables:
  the predicate is called once on each element, front to back, and the elements it
  accepts are removed; the captured variables are the state \<open>st\<close>.
\<close>

fun erase_if :: "('a \<Rightarrow> 'st \<Rightarrow> bool \<times> 'st) \<Rightarrow> 'a list \<Rightarrow> 'st \<Rightarrow> 'a list \<times> 'st" where
  "erase_if pred [] st = ([], st)"
| "erase_if pred (x # xs) st =
     (case pred x st of
        (True, st') \<Rightarrow> erase_if pred xs st'
      | (False, st') \<Rightarrow> (case erase_if pred xs st' of (ys, st'') \<Rightarrow> (x # ys, st'')))"

subsection \<open>PagePool::PoolImpl\<close>

text \<open>
  \<open>local_pools_\<close> is an \<open>unordered_map\<close> from isolates to vectors of entries,
  \<open>shared_pool_\<close> a vector of pairs of a release time and a vector of entries.
\<close>

record 'e PoolImpl =
  local_pools :: "(Isolate, 'e list) fmap"
  shared_pool :: "(InternalTime \<times> 'e list) list"

definition PoolImpl_TearDown :: "bool \<Rightarrow> 'e PoolImpl \<Rightarrow> fatal + 'e PoolImpl" where
  "PoolImpl_TearDown debug s =
     DCHECK debug (local_pools s = fmempty)
       (Inr (s\<lparr>shared_pool := []\<rparr>))"

text \<open>\<open>local_pools_[isolate]\<close> creates an empty vector for a key that is absent.\<close>

definition PoolImpl_PutLocal :: "Isolate \<Rightarrow> 'e \<Rightarrow> 'e PoolImpl \<Rightarrow> 'e PoolImpl" where
  "PoolImpl_PutLocal isolate entry s =
     (let entries = (case fmlookup (local_pools s) isolate of None \<Rightarrow> [] | Some es \<Rightarrow> es)
      in s\<lparr>local_pools := fmupd isolate (entries @ [entry]) (local_pools s)\<rparr>)"

text \<open>
  \<open>Get\<close>: the first \<open>if\<close> of the source handles an isolate without a local pool
  (it falls through to \<open>nullopt\<close> when the shared pool, or its last batch, is empty),
  the second one an isolate with a local pool.
\<close>

definition PoolImpl_Get ::
  "bool \<Rightarrow> Isolate \<Rightarrow> 'e PoolImpl \<Rightarrow> fatal + ('e option \<times> 'e PoolImpl)" where
  "PoolImpl_Get debug isolate s =
     DCHECK debug (isolate \<noteq> nullptr)
      (case fmlookup (local_pools s) isolate of
        None \<Rightarrow>
          (if shared_pool s \<noteq> [] then
             (let release_time = fst (last (shared_pool s));
                  shared_entries = snd (last (shared_pool s))
              in if shared_entries \<noteq> [] then
                   (let shared_entry = last shared_entries;
                        shared_entries' = butlast shared_entries
                    in Inr (Some shared_entry,
                         s\<lparr>shared_pool :=
                             (if shared_entries' = [] then butlast (shared_pool s)
                              else butlast (shared_pool s) @ [(release_time, shared_entries')])\<rparr>))
                 else Inr (None, s))
           else Inr (None, s))
      | Some entries \<Rightarrow>
          DCHECK debug (entries \<noteq> [])
           (if entries \<noteq> [] then
              (let local_entry = last entries;
                   entries' = butlast entries
               in Inr (Some local_entry,
                    s\<lparr>local_pools :=
                        (if entries' = [] then fmdrop isolate (local_pools s)
                         else fmupd isolate entries' (local_pools s))\<rparr>))
            else Inr (None, s)))"

definition PoolImpl_MoveLocalToShared ::
  "bool \<Rightarrow> Isolate \<Rightarrow> InternalTime \<Rightarrow> 'e PoolImpl \<Rightarrow> fatal + (bool \<times> 'e PoolImpl)" where
  "PoolImpl_MoveLocalToShared debug isolate release_time s =
     (case fmlookup (local_pools s) isolate of
        None \<Rightarrow> Inr (shared_pool s \<noteq> [], s)
      | Some entries \<Rightarrow>
          DCHECK debug (entries \<noteq> [])
           (let s' = s\<lparr>shared_pool := shared_pool s @ [(release_time, entries)],
                       local_pools := fmdrop isolate (local_pools s)\<rparr>
            in Inr (shared_pool s' \<noteq> [], s')))"

text \<open>
  The release operations return, first, the container \<open>entries_to_free\<close>: its entries
  are destroyed (their release callbacks run) when the function returns.
\<close>

definition PoolImpl_ReleaseShared ::
  "'e PoolImpl \<Rightarrow> (InternalTime \<times> 'e list) list \<times> 'e PoolImpl" where
  "PoolImpl_ReleaseShared s = (shared_pool s, s\<lparr>shared_pool := []\<rparr>)"

definition PoolImpl_ReleaseLocal ::
  "bool \<Rightarrow> Isolate \<Rightarrow> 'e PoolImpl \<Rightarrow> fatal + ('e list \<times> 'e PoolImpl)" where
  "PoolImpl_ReleaseLocal debug isolate s =
     (case fmlookup (local_pools s) isolate of
        None \<Rightarrow> Inr ([], s)
      | Some entries \<Rightarrow>
          DCHECK debug (entries \<noteq> [])
           (Inr (entries, s\<lparr>local_pools := fmdrop isolate (local_pools s)\<rparr>)))"

text \<open>
  \<open>Size\<close> walks over the entries of \<open>local_pools_\<close> and then over \<open>shared_pool_\<close>,
  adding the sizes of the vectors. The order in which an \<open>unordered_map\<close> is walked
  is not fixed; the model walks it by ascending key.
\<close>

definition PoolImpl_Size :: "'e PoolImpl \<Rightarrow> nat" where
  "PoolImpl_Size s =
     (let count = fold (\<lambda>entry count. count + length (snd entry))
                    (sorted_list_of_fmap (local_pools s)) 0
      in fold (\<lambda>entry count. count + length (snd entry)) (shared_pool s) count)"

definition PoolImpl_LocalSize :: "Isolate \<Rightarrow> 'e PoolImpl \<Rightarrow> nat" where
  "PoolImpl_LocalSize isolate s =
     (case fmlookup (local_pools s) isolate of None \<Rightarrow> 0 | Some entries \<Rightarrow> length entries)"

definition PoolImpl_SharedSize :: "'e PoolImpl \<Rightarrow> nat" where
  "PoolImpl_SharedSize s =
     fold (\<lambda>entry count. count + length (snd entry)) (shared_pool s) 0"

text \<open>
  \<open>ReleaseUpTo\<close>: the captured variables of the predicate are \<open>entries_to_free\<close>
  and \<open>freed\<close>. The result is \<open>freed\<close>, the entries to destroy and the new state.
\<close>

definition PoolImpl_ReleaseUpTo ::
  "InternalTime \<Rightarrow> 'e PoolImpl \<Rightarrow> nat \<times> 'e list list \<times> 'e PoolImpl" where
  "PoolImpl_ReleaseUpTo release_time s =
     (case erase_if
             (\<lambda>entry (entries_to_free, freed).
                if fst entry \<le> release_time
                then (True, (entries_to_free @ [snd entry], freed + length (snd entry)))
                else (False, (entries_to_free, freed)))
             (shared_pool s) ([], 0)
      of (shared_pool', (entries_to_free, freed)) \<Rightarrow>
           (freed, entries_to_free, s\<lparr>shared_pool := shared_pool'\<rparr>))"

subsection \<open>PagePool::LargePagePoolImpl\<close>

text \<open>
  A \<open>LargePageMetadata*\<close> is the address of the metadata; the pool reads nothing
  of a page but its \<open>size()\<close>.
\<close>

record LargePageMetadata =
  metadata_address :: nat
  size_bytes :: size_t

record LargePagePoolImpl =
  pages :: "(InternalTime \<times> LargePageMetadata) list"
  total_size :: size_t

definition LargePagePoolImpl_ComputeTotalSize :: "LargePagePoolImpl \<Rightarrow> size_t" where
  "LargePagePoolImpl_ComputeTotalSize s =
     fold (\<lambda>entry result. result + size_bytes (snd entry)) (pages s) 0"

text \<open>
  \<open>Add\<close>: \<open>max_total_size\<close> is the value of
  \<open>v8_flags.max_large_page_pool_size * MB\<close>, whose operands are declared outside this
  file; it is a parameter. The vector \<open>pages\<close> of the caller is changed in place: the
  function returns \<open>added_to_pool\<close>, what is left of that vector, and the new state.
  The captured variables of the predicate are the pool and \<open>added_to_pool\<close>.
\<close>

definition LargePagePoolImpl_Add ::
  "bool \<Rightarrow> size_t \<Rightarrow> LargePageMetadata list \<Rightarrow> InternalTime \<Rightarrow> LargePagePoolImpl \<Rightarrow>
     fatal + (bool \<times> LargePageMetadata list \<times> LargePagePoolImpl)" where
  "LargePagePoolImpl_Add debug max_total_size candidates time s =
     DCHECK debug (total_size s = LargePagePoolImpl_ComputeTotalSize s)
      (case erase_if
              (\<lambda>page (this, added_to_pool).
                 if total_size this + size_bytes page > max_total_size
                 then (False, (this, added_to_pool))
                 else (True,
                       (this\<lparr>total_size := total_size this + size_bytes page,
                              pages := pages this @ [(time, page)]\<rparr>,
                        True)))
              candidates (s, False)
       of (candidates', (s', added_to_pool)) \<Rightarrow>
            DCHECK debug (total_size s' = LargePagePoolImpl_ComputeTotalSize s')
             (Inr (added_to_pool, candidates', s')))"

text \<open>
  The loop of \<open>Remove\<close>. The iterators \<open>it\<close> and \<open>selected\<close> are positions in
  \<open>pages_\<close>; \<open>selected == pages_.end()\<close> is \<open>None\<close>. The third argument is the
  part of the vector from \<open>it\<close> on.
\<close>

fun Remove_loop ::
  "size_t \<Rightarrow> (InternalTime \<times> LargePageMetadata) list \<Rightarrow>
     (InternalTime \<times> LargePageMetadata) list \<Rightarrow> nat \<Rightarrow> nat option \<Rightarrow> nat option" where
  "Remove_loop chunk_size pages_all [] it selected = selected"
| "Remove_loop chunk_size pages_all (entry # rest) it selected =
     (let page_size = size_bytes (snd entry)
      in if page_size < chunk_size then Remove_loop chunk_size pages_all rest (it + 1) selected
         else if (case selected of
                    None \<Rightarrow> True
                  | Some sel \<Rightarrow> page_size < size_bytes (snd (pages_all ! sel)))
         then Remove_loop chunk_size pages_all rest (it + 1) (Some it)
         else Remove_loop chunk_size pages_all rest (it + 1) selected)"

text \<open>\<open>Remove\<close> returns the page (\<open>None\<close> for \<open>nullptr\<close>) and the new state.\<close>

definition LargePagePoolImpl_Remove ::
  "bool \<Rightarrow> size_t \<Rightarrow> LargePagePoolImpl \<Rightarrow>
     fatal + (LargePageMetadata option \<times> LargePagePoolImpl)" where
  "LargePagePoolImpl_Remove debug chunk_size s =
     DCHECK debug (total_size s = LargePagePoolImpl_ComputeTotalSize s)
      (case Remove_loop chunk_size (pages s) (pages s) 0 None of
         None \<Rightarrow> Inr (None, s)
       | Some selected \<Rightarrow>
           (let result = snd (pages s ! selected);
                s' = s\<lparr>total_size := total_size s - size_bytes result,
                       pages := take selected (pages s) @ drop (Suc selected) (pages s)\<rparr>
            in DCHECK debug (total_size s' = LargePagePoolImpl_ComputeTotalSize s')
                (Inr (Some result, s'))))"

text \<open>
  \<open>ReleaseAll\<close> moves \<open>pages_\<close> into \<open>pages_to_free\<close>, which leaves the vector
  empty. It returns the entries to destroy and the new state.
\<close>

definition LargePagePoolImpl_ReleaseAll ::
  "LargePagePoolImpl \<Rightarrow> (InternalTime \<times> LargePageMetadata) list \<times> LargePagePoolImpl" where
  "LargePagePoolImpl_ReleaseAll s = (pages s, s\<lparr>pages := [], total_size := 0\<rparr>)"

text \<open>
  \<open>ReleaseUpTo\<close>: the captured variables of the predicate are \<open>total_size_\<close> and
  \<open>entries_to_free\<close>; the local \<open>freed\<close> is initialised and returned. The result
  is \<open>freed\<close>, the entries to destroy and the new state.
\<close>

definition LargePagePoolImpl_ReleaseUpTo ::
  "bool \<Rightarrow> InternalTime \<Rightarrow> LargePagePoolImpl \<Rightarrow>
     fatal + (nat \<times> LargePageMetadata list \<times> LargePagePoolImpl)" where
  "LargePagePoolImpl_ReleaseUpTo debug release_time s =
     (let freed = 0
      in case erase_if
                (\<lambda>entry (total_size', entries_to_free).
                   if fst entry \<le> release_time
                   then (True, (total_size' - size_bytes (snd entry),
                                entries_to_free @ [snd entry]))
                   else (False, (total_size', entries_to_free)))
                (pages s) (total_size s, [])
         of (pages', (total_size', entries_to_free)) \<Rightarrow>
              (let s' = s\<lparr>pages := pages', total_size := total_size'\<rparr>
               in DCHECK debug (total_size s' = LargePagePoolImpl_ComputeTotalSize s')
                   (Inr (freed, entries_to_free, s'))))"

definition LargePagePoolImpl_TearDown :: "LargePagePoolImpl \<Rightarrow> fatal + unit" where
  "LargePagePoolImpl_TearDown s = CHECK (pages s = []) (Inr ())"

subsection \<open>PagePool\<close>

text \<open>
  A \<open>MutablePageMetadata*\<close> is the address of the metadata, with what the assertions
  of \<open>PagePool::Add\<close> read of the page: its size, whether its chunk is a large page,
  is trusted or is executable, and whether it still has slots.
\<close>

datatype Executability = NOT_EXECUTABLE | EXECUTABLE

record MutablePageMetadata =
  page_address :: nat
  page_size_bytes :: size_t
  IsLargePage :: bool
  IsTrusted :: bool
  executable :: Executability
  ContainsAnySlots :: bool

text \<open>
  The facade owns the pool of pages, the pool of zone reservations (entries of type
  \<open>VirtualMemory\<close>, here \<open>'z\<close>), the pool of large pages and the clock
  \<open>next_time_\<close>.
\<close>

record 'z PagePool =
  page_pool :: "MutablePageMetadata PoolImpl"
  zone_pool :: "'z PoolImpl"
  large_pool :: LargePagePoolImpl
  next_time :: InternalTime

text \<open>
  What a release operation of the facade does outside the pool: the entries it destroys,
  and the delayed task it posts (the isolate that runs it and the release time).
\<close>

record 'z Released =
  released_pages :: "MutablePageMetadata list"
  released_zone_reservations :: "'z list"
  released_large_pages :: "LargePageMetadata list"
  posted_task :: "(Isolate \<times> InternalTime) option"

text \<open>
  \<open>ReleaseImmediately\<close> releases the local pools of the isolate and all large pages.
\<close>

definition PagePool_ReleaseImmediately ::
  "bool \<Rightarrow> Isolate \<Rightarrow> 'z PagePool \<Rightarrow> fatal + ('z Released \<times> 'z PagePool)" where
  "PagePool_ReleaseImmediately debug isolate s =
     (case PoolImpl_ReleaseLocal debug isolate (page_pool s) of
        Inl e \<Rightarrow> Inl e
      | Inr (freed_pages, page_pool') \<Rightarrow>
     (case PoolImpl_ReleaseLocal debug isolate (zone_pool s) of
        Inl e \<Rightarrow> Inl e
      | Inr (freed_zones, zone_pool') \<Rightarrow>
     (case LargePagePoolImpl_ReleaseAll (large_pool s) of
        (freed_large, large_pool') \<Rightarrow>
          Inr (\<lparr>released_pages = freed_pages,
                released_zone_reservations = freed_zones,
                released_large_pages = map snd freed_large,
                posted_task = None\<rparr>,
               s\<lparr>page_pool := page_pool', zone_pool := zone_pool',
                 large_pool := large_pool'\<rparr>))))"

text \<open>
  \<open>ReleaseOnTearDown\<close>. Two things it reads are declared outside this file and are
  parameters: the flag \<open>v8_flags.memory_pool_share_memory_on_teardown\<close>, and what
  \<open>FindAnotherIsolateLocked\<close> finds in the isolate group: \<open>Some target_isolate\<close>,
  on which it calls \<open>schedule_task\<close> and returns true, or \<open>None\<close>, when it
  returns false. \<open>fetch_add\<close> returns the old value of \<open>next_time_\<close>.
\<close>

definition PagePool_ReleaseOnTearDown ::
  "bool \<Rightarrow> bool \<Rightarrow> Isolate option \<Rightarrow> Isolate \<Rightarrow> 'z PagePool \<Rightarrow>
     fatal + ('z Released \<times> 'z PagePool)" where
  "PagePool_ReleaseOnTearDown debug memory_pool_share_memory_on_teardown another_isolate
       isolate s =
     (if \<not> memory_pool_share_memory_on_teardown
      then PagePool_ReleaseImmediately debug isolate s
      else
       (let time = next_time s;
            s1 = s\<lparr>next_time := next_time s + 1\<rparr>
        in case PoolImpl_MoveLocalToShared debug isolate time (page_pool s1) of
             Inl e \<Rightarrow> Inl e
           | Inr (shared_page_pool_populate, page_pool1) \<Rightarrow>
          (case PoolImpl_MoveLocalToShared debug isolate time (zone_pool s1) of
             Inl e \<Rightarrow> Inl e
           | Inr (shared_zone_pool_populated, zone_pool1) \<Rightarrow>
          (case
             (if shared_page_pool_populate \<or> shared_zone_pool_populated then
                (case another_isolate of
                   Some target_isolate \<Rightarrow>
                     DCHECK debug (isolate \<noteq> target_isolate)
                      (Inr ([], [], Some (target_isolate, time), page_pool1, zone_pool1))
                 | None \<Rightarrow>
                     (case PoolImpl_ReleaseShared page_pool1 of
                        (freed_pages, page_pool2) \<Rightarrow>
                     (case PoolImpl_ReleaseShared zone_pool1 of
                        (freed_zones, zone_pool2) \<Rightarrow>
                          Inr (concat (map snd freed_pages), concat (map snd freed_zones),
                               None, page_pool2, zone_pool2))))
              else Inr ([], [], None, page_pool1, zone_pool1))
           of
             Inl e \<Rightarrow> Inl e
           | Inr (freed_pages, freed_zones, task, page_pool3, zone_pool3) \<Rightarrow>
          (case LargePagePoolImpl_ReleaseAll (large_pool s1) of
             (freed_large, large_pool') \<Rightarrow>
               Inr (\<lparr>released_pages = freed_pages,
                     released_zone_reservations = freed_zones,
                     released_large_pages = map snd freed_large,
                     posted_task = task\<rparr>,
                    s1\<lparr>page_pool := page_pool3, zone_pool := zone_pool3,
                       large_pool := large_pool'\<rparr>))))))"

definition PagePool_TearDown :: "bool \<Rightarrow> 'z PagePool \<Rightarrow> fatal + 'z PagePool" where
  "PagePool_TearDown debug s =
     (case PoolImpl_TearDown debug (page_pool s) of
        Inl e \<Rightarrow> Inl e
      | Inr page_pool' \<Rightarrow>
     (case PoolImpl_TearDown debug (zone_pool s) of
        Inl e \<Rightarrow> Inl e
      | Inr zone_pool' \<Rightarrow>
     (case LargePagePoolImpl_TearDown (large_pool s) of
        Inl e \<Rightarrow> Inl e
      | Inr _ \<Rightarrow> Inr (s\<lparr>page_pool := page_pool', zone_pool := zone_pool'\<rparr>))))"

definition PagePool_GetCount :: "Isolate \<Rightarrow> 'z PagePool \<Rightarrow> nat" where
  "PagePool_GetCount isolate s = PoolImpl_LocalSize isolate (page_pool s)"

definition PagePool_GetSharedCount :: "'z PagePool \<Rightarrow> nat" where
  "PagePool_GetSharedCount s = PoolImpl_SharedSize (page_pool s)"

definition PagePool_GetTotalCount :: "'z PagePool \<Rightarrow> nat" where
  "PagePool_GetTotalCount s = PoolImpl_Size (page_pool s)"

text \<open>
  \<open>Add\<close>: \<open>PageMetadata::kPageSize\<close> is declared outside this file and is a
  parameter.
\<close>

definition PagePool_Add ::
  "bool \<Rightarrow> size_t \<Rightarrow> Isolate \<Rightarrow> MutablePageMetadata \<Rightarrow> 'z PagePool \<Rightarrow> fatal + 'z PagePool" where
  "PagePool_Add debug kPageSize isolate chunk s =
     DCHECK debug (isolate \<noteq> nullptr)
     (DCHECK debug (page_address chunk \<noteq> nullptr)
     (DCHECK debug (page_size_bytes chunk = kPageSize)
     (DCHECK debug (\<not> IsLargePage chunk)
     (DCHECK debug (\<not> IsTrusted chunk)
     (DCHECK debug (executable chunk \<noteq> EXECUTABLE)
     (DCHECK debug (\<not> ContainsAnySlots chunk)
     (Inr (s\<lparr>page_pool := PoolImpl_PutLocal isolate chunk (page_pool s)\<rparr>))))))))"

definition PagePool_Remove ::
  "bool \<Rightarrow> Isolate \<Rightarrow> 'z PagePool \<Rightarrow> fatal + (MutablePageMetadata option \<times> 'z PagePool)" where
  "PagePool_Remove debug isolate s =
     DCHECK debug (isolate \<noteq> nullptr)
      (case PoolImpl_Get debug isolate (page_pool s) of
         Inl e \<Rightarrow> Inl e
       | Inr (result, page_pool') \<Rightarrow> Inr (result, s\<lparr>page_pool := page_pool'\<rparr>))"

definition PagePool_RemoveLarge ::
  "bool \<Rightarrow> Isolate \<Rightarrow> size_t \<Rightarrow> 'z PagePool \<Rightarrow>
     fatal + (LargePageMetadata option \<times> 'z PagePool)" where
  "PagePool_RemoveLarge debug isolate chunk_size s =
     (case LargePagePoolImpl_Remove debug chunk_size (large_pool s) of
        Inl e \<Rightarrow> Inl e
      | Inr (result, large_pool') \<Rightarrow> Inr (result, s\<lparr>large_pool := large_pool'\<rparr>))"

subsection \<open>Invariants and call sequences\<close>

text \<open>
  The invariant of the generic pool: no isolate has an empty local vector and no batch
  of the shared pool is empty.
\<close>

definition PoolImpl_invariant :: "'e PoolImpl \<Rightarrow> bool" where
  "PoolImpl_invariant s =
     (fmpred (\<lambda>isolate entries. entries \<noteq> []) (local_pools s) \<and>
      list_all (\<lambda>batch. snd batch \<noteq> []) (shared_pool s))"

text \<open>\<open>PutLocal\<close> called once for each entry of a list, in order.\<close>

definition PutLocal_each :: "Isolate \<Rightarrow> 'e list \<Rightarrow> 'e PoolImpl \<Rightarrow> 'e PoolImpl" where
  "PutLocal_each isolate entries s = fold (PoolImpl_PutLocal isolate) entries s"

text \<open>\<open>Get\<close> called \<open>n\<close> times in a row; the results are listed in call order.\<close>

fun Get_times ::
  "bool \<Rightarrow> Isolate \<Rightarrow> nat \<Rightarrow> 'e PoolImpl \<Rightarrow> fatal + ('e option list \<times> 'e PoolImpl)" where
  "Get_times debug isolate 0 s = Inr ([], s)"
| "Get_times debug isolate (Suc n) s =
     (case PoolImpl_Get debug isolate s of
        Inl e \<Rightarrow> Inl e
      | Inr (result, s') \<Rightarrow>
          (case Get_times debug isolate n s' of
             Inl e \<Rightarrow> Inl e
           | Inr (results, s'') \<Rightarrow> Inr (result # results, s'')))"

text \<open>
  The best fit of the specification: position \<open>i\<close> of the retained entries holds the
  smallest size that is at least \<open>chunk_size\<close>, and every earlier entry of at least
  \<open>chunk_size\<close> is strictly larger (among entries of that smallest size, \<open>i\<close> is
  the first).
\<close>

definition best_fit :: "size_t \<Rightarrow> (InternalTime \<times> LargePageMetadata) list \<Rightarrow> nat \<Rightarrow> bool" where
  "best_fit chunk_size entries i =
     (i < length entries \<and>
      chunk_size \<le> size_bytes (snd (entries ! i)) \<and>
      (\<forall>j<length entries. chunk_size \<le> size_bytes (snd (entries ! j)) \<longrightarrow>
         size_bytes (snd (entries ! i)) \<le> size_bytes (snd (entries ! j))) \<and>
      (\<forall>j<i. chunk_size \<le> size_bytes (snd (entries ! j)) \<longrightarrow>
         size_bytes (snd (entries ! i)) < size_bytes (snd (entries ! j))))"

text \<open>
  The migration of the specification: the whole local vector of the isolate becomes one
  new batch, tagged \<open>time\<close>, at the end of the shared pool; nothing changes for an
  isolate without a local vector.
\<close>

definition migrated :: "Isolate \<Rightarrow> InternalTime \<Rightarrow> 'e PoolImpl \<Rightarrow> 'e PoolImpl" where
  "migrated isolate time p =
     (case fmlookup (local_pools p) isolate of
        None \<Rightarrow> p
      | Some entries \<Rightarrow>
          p\<lparr>shared_pool := shared_pool p @ [(time, entries)],
            local_pools := fmdrop isolate (local_pools p)\<rparr>)"

text \<open>
  What the assertions of \<open>PagePool::Add\<close> require of the isolate and the page, and a
  page that meets them: not large, not trusted, not executable, without slots.
\<close>

definition Add_preconditions :: "size_t \<Rightarrow> Isolate \<Rightarrow> MutablePageMetadata \<Rightarrow> bool" where
  "Add_preconditions kPageSize isolate chunk =
     (isolate \<noteq> nullptr \<and> page_address chunk \<noteq> nullptr \<and>
      page_size_bytes chunk = kPageSize \<and> \<not> IsLargePage chunk \<and> \<not> IsTrusted chunk \<and>
      executable chunk \<noteq> EXECUTABLE \<and> \<not> ContainsAnySlots chunk)"

definition ordinary_page :: "nat \<Rightarrow> size_t \<Rightarrow> MutablePageMetadata" where
  "ordinary_page address kPageSize =
     \<lparr>page_address = address, page_size_bytes = kPageSize, IsLargePage = False,
      IsTrusted = False, executable = NOT_EXECUTABLE, ContainsAnySlots = False\<rparr>"

text \<open>
  The number of bytes the pool retains, as a natural number: the sum of the sizes of its
  entries without wrap-around.
\<close>

definition retained_bytes :: "LargePagePoolImpl \<Rightarrow> nat" where
  "retained_bytes s = sum_list (map (\<lambda>entry. unat (size_bytes (snd entry))) (pages s))"

section \<open>Properties\<close>

subsection \<open>The sweeps of \<open>erase_if\<close>\<close>

text \<open>
  What each sweep of the two \<open>ReleaseUpTo\<close> functions computes, for any starting
  values of the captured variables.
\<close>

lemma erase_if_PoolImpl_ReleaseUpTo:
  "erase_if
     (\<lambda>entry (entries_to_free, freed).
        if fst entry \<le> release_time
        then (True, (entries_to_free @ [snd entry], freed + length (snd entry)))
        else (False, (entries_to_free, freed)))
     (batches :: (InternalTime \<times> 'e list) list) (acc, n)
   = (filter (\<lambda>entry. release_time < fst entry) batches,
      (acc @ map snd (filter (\<lambda>entry. fst entry \<le> release_time) batches),
       n + sum_list (map (\<lambda>entry. length (snd entry))
             (filter (\<lambda>entry. fst entry \<le> release_time) batches))))"
  by (induction batches arbitrary: acc n) (auto simp: not_le)

lemma erase_if_Large_ReleaseUpTo:
  "erase_if
     (\<lambda>entry (total_size', entries_to_free).
        if fst entry \<le> release_time
        then (True, (total_size' - size_bytes (snd entry), entries_to_free @ [snd entry]))
        else (False, (total_size', entries_to_free)))
     (entries :: (InternalTime \<times> LargePageMetadata) list) (tot0, acc)
   = (filter (\<lambda>entry. release_time < fst entry) entries,
      (tot0 - sum_list (map (\<lambda>entry. size_bytes (snd entry))
                 (filter (\<lambda>entry. fst entry \<le> release_time) entries)),
       acc @ map snd (filter (\<lambda>entry. fst entry \<le> release_time) entries)))"
  by (induction entries arbitrary: acc tot0) (auto simp: not_le)

lemma fold_add_size_bytes:
  "fold (\<lambda>entry result. result + size_bytes (snd entry)) xs (a::size_t)
     = a + sum_list (map (\<lambda>entry. size_bytes (snd entry)) xs)"
  by (induction xs arbitrary: a) (simp_all add: add.assoc)

lemma ComputeTotalSize_sum_list:
  "LargePagePoolImpl_ComputeTotalSize s = sum_list (map (\<lambda>entry. size_bytes (snd entry)) (pages s))"
  by (simp add: LargePagePoolImpl_ComputeTotalSize_def fold_add_size_bytes)

lemma sum_list_size_partition:
  "sum_list (map (\<lambda>entry. size_bytes (snd entry)) (entries :: (InternalTime \<times> LargePageMetadata) list))
     = sum_list (map (\<lambda>entry. size_bytes (snd entry)) (filter (\<lambda>entry. fst entry \<le> t) entries))
     + sum_list (map (\<lambda>entry. size_bytes (snd entry)) (filter (\<lambda>entry. t < fst entry) entries))"
proof (induction entries)
  case Nil
  show ?case by simp
next
  case (Cons e es)
  show ?case
  proof (cases "fst e \<le> t")
    case True
    then have "\<not> t < fst e" by simp
    with True Cons show ?thesis by (simp add: add.assoc)
  next
    case False
    then have "t < fst e" by simp
    with False Cons show ?thesis by (simp add: add.left_commute)
  qed
qed

lemma ReleaseUpTo_kept_total:
  assumes "total_size s = LargePagePoolImpl_ComputeTotalSize s"
  shows "total_size s - sum_list (map (\<lambda>entry. size_bytes (snd entry))
                 (filter (\<lambda>entry. fst entry \<le> release_time) (pages s)))
       = sum_list (map (\<lambda>entry. size_bytes (snd entry))
                 (filter (\<lambda>entry. release_time < fst entry) (pages s)))"
proof -
  let ?gone = "sum_list (map (\<lambda>entry. size_bytes (snd entry))
                 (filter (\<lambda>entry. fst entry \<le> release_time) (pages s)))"
  let ?kept = "sum_list (map (\<lambda>entry. size_bytes (snd entry))
                 (filter (\<lambda>entry. release_time < fst entry) (pages s)))"
  have "total_size s = ?gone + ?kept"
    unfolding assms ComputeTotalSize_sum_list by (rule sum_list_size_partition)
  then show "total_size s - ?gone = ?kept"
    by simp
qed

lemma LargePagePoolImpl_ReleaseUpTo_unfold:
  "LargePagePoolImpl_ReleaseUpTo debug release_time s =
    (let s' = s\<lparr>pages := filter (\<lambda>entry. release_time < fst entry) (pages s),
            total_size := total_size s - sum_list (map (\<lambda>entry. size_bytes (snd entry))
                 (filter (\<lambda>entry. fst entry \<le> release_time) (pages s)))\<rparr>
     in DCHECK debug (total_size s' = LargePagePoolImpl_ComputeTotalSize s')
     (Inr (0, map snd (filter (\<lambda>entry. fst entry \<le> release_time) (pages s)), s')))"
  by (simp add: LargePagePoolImpl_ReleaseUpTo_def erase_if_Large_ReleaseUpTo)

lemma LargePagePoolImpl_ReleaseUpTo_result:
  assumes "total_size s = LargePagePoolImpl_ComputeTotalSize s"
  shows "LargePagePoolImpl_ReleaseUpTo debug release_time s =
     Inr (0, map snd (filter (\<lambda>entry. fst entry \<le> release_time) (pages s)),
          s\<lparr>pages := filter (\<lambda>entry. release_time < fst entry) (pages s),
            total_size := total_size s - sum_list (map (\<lambda>entry. size_bytes (snd entry))
                 (filter (\<lambda>entry. fst entry \<le> release_time) (pages s)))\<rparr>)"
  unfolding LargePagePoolImpl_ReleaseUpTo_unfold
  by (simp add: DCHECK_def ComputeTotalSize_sum_list ReleaseUpTo_kept_total[OF assms])

subsection \<open>Timed release from the generic pool\<close>

text \<open>
  Claim C7. For every state of the generic pool and every time \<open>T\<close>,
  \<open>PoolImpl::ReleaseUpTo(T)\<close> removes exactly the shared batches tagged \<open>\<le> T\<close>:
  the shared pool afterwards is the batches tagged \<open>> T\<close>, in their order, the local
  pools are as before, the entries handed to destruction are those of the removed
  batches, and the count returned is the total number of entries of the removed batches.
\<close>

theorem PoolImpl_ReleaseUpTo_exact:
  "PoolImpl_ReleaseUpTo release_time s =
     (sum_list (map (\<lambda>batch. length (snd batch))
        (filter (\<lambda>batch. fst batch \<le> release_time) (shared_pool s))),
      map snd (filter (\<lambda>batch. fst batch \<le> release_time) (shared_pool s)),
      s\<lparr>shared_pool := filter (\<lambda>batch. release_time < fst batch) (shared_pool s)\<rparr>)"
  by (simp add: PoolImpl_ReleaseUpTo_def erase_if_PoolImpl_ReleaseUpTo)

subsection \<open>Timed release from the large page pool\<close>

text \<open>
  Claim C1. \<open>LargePagePoolImpl::ReleaseUpTo(T)\<close> should return the number of entries
  it removed. On a pool holding one page tagged 3, \<open>ReleaseUpTo(5)\<close> removes that page
  and brings the aggregate from 100 to 0, and returns 0, not 1: the local \<open>freed\<close>
  is returned as initialised (by \<open>LargePagePoolImpl_ReleaseUpTo_result\<close>, on every
  input).
\<close>

theorem LargePagePoolImpl_ReleaseUpTo_count_lost:
  "LargePagePoolImpl_ReleaseUpTo debug 5
      \<lparr>pages = [(3, \<lparr>metadata_address = 4096, size_bytes = 100\<rparr>)], total_size = 100\<rparr>
   = Inr (0, [\<lparr>metadata_address = 4096, size_bytes = 100\<rparr>], \<lparr>pages = [], total_size = 0\<rparr>)"
  by (simp add: LargePagePoolImpl_ReleaseUpTo_def DCHECK_def LargePagePoolImpl_ComputeTotalSize_def)

subsection \<open>No empty container in the generic pool\<close>

lemma PoolImpl_invariant_lookup:
  "PoolImpl_invariant s \<Longrightarrow> fmlookup (local_pools s) isolate = Some entries \<Longrightarrow> entries \<noteq> []"
  by (auto simp: PoolImpl_invariant_def fmpred_iff)

lemma PoolImpl_invariant_last_batch:
  "PoolImpl_invariant s \<Longrightarrow> shared_pool s \<noteq> [] \<Longrightarrow> snd (last (shared_pool s)) \<noteq> []"
  by (simp add: PoolImpl_invariant_def list_all_iff)

lemma list_all_butlast: "list_all P xs \<Longrightarrow> list_all P (butlast xs)"
  by (auto simp: list_all_iff dest: in_set_butlastD)

lemma fmpred_fmupd_nonempty:
  "fmpred (\<lambda>isolate entries. entries \<noteq> []) m \<Longrightarrow> es \<noteq> [] \<Longrightarrow>
   fmpred (\<lambda>isolate entries. entries \<noteq> []) (fmupd k es m)"
  by (rule fmpred_upd)

lemma PoolImpl_invariant_PutLocal:
  "PoolImpl_invariant s \<Longrightarrow> PoolImpl_invariant (PoolImpl_PutLocal isolate entry s)"
  by (simp add: PoolImpl_invariant_def PoolImpl_PutLocal_def Let_def fmpred_fmupd_nonempty)

lemma PoolImpl_invariant_empty:
  "PoolImpl_invariant \<lparr>local_pools = fmempty, shared_pool = []\<rparr>"
  by (simp add: PoolImpl_invariant_def)

lemma PoolImpl_invariant_MoveLocalToShared:
  assumes "PoolImpl_invariant s"
  shows "\<exists>s'. PoolImpl_MoveLocalToShared debug isolate release_time s
                 = Inr (shared_pool s' \<noteq> [], s')
           \<and> PoolImpl_invariant s'"
proof (cases "fmlookup (local_pools s) isolate")
  case None
  with assms show ?thesis by (simp add: PoolImpl_MoveLocalToShared_def)
next
  case (Some entries)
  with assms have "entries \<noteq> []" by (rule PoolImpl_invariant_lookup)
  with Some assms show ?thesis
    by (simp add: PoolImpl_MoveLocalToShared_def DCHECK_def PoolImpl_invariant_def fmpred_drop)
qed

lemma PoolImpl_invariant_Get:
  assumes inv: "PoolImpl_invariant s" and nn: "debug \<longrightarrow> isolate \<noteq> nullptr"
  shows "\<exists>result s'. PoolImpl_Get debug isolate s = Inr (result, s') \<and> PoolImpl_invariant s'"
proof (cases "fmlookup (local_pools s) isolate")
  case None
  from inv have "list_all (\<lambda>batch. snd batch \<noteq> []) (butlast (shared_pool s))"
    by (simp add: PoolImpl_invariant_def list_all_butlast)
  with None inv nn show ?thesis
    by (simp add: PoolImpl_Get_def DCHECK_def PoolImpl_invariant_def Let_def)
next
  case (Some entries)
  with inv have "entries \<noteq> []" by (rule PoolImpl_invariant_lookup)
  with Some inv nn show ?thesis
    by (simp add: PoolImpl_Get_def DCHECK_def PoolImpl_invariant_def Let_def
        fmpred_drop fmpred_fmupd_nonempty)
qed

lemma PoolImpl_invariant_ReleaseUpTo:
  assumes "PoolImpl_invariant s"
  shows "PoolImpl_invariant (snd (snd (PoolImpl_ReleaseUpTo release_time s)))"
  using assms
  by (simp add: PoolImpl_ReleaseUpTo_def erase_if_PoolImpl_ReleaseUpTo PoolImpl_invariant_def
      list_all_iff)

text \<open>
  Claim C4. From a state of the generic pool in which no isolate has an empty local
  vector and no shared batch is empty, \<open>MoveLocalToShared\<close>, \<open>Get\<close> (on an
  isolate that is not null, which a debug build asserts) and \<open>ReleaseUpTo\<close> return
  normally and leave a state of the same kind.
\<close>

theorem PoolImpl_no_empty_container:
  "PoolImpl_invariant s \<Longrightarrow>
     (\<exists>s'. PoolImpl_MoveLocalToShared debug isolate release_time s
              = Inr (shared_pool s' \<noteq> [], s')
        \<and> PoolImpl_invariant s') \<and>
     ((debug \<longrightarrow> isolate \<noteq> nullptr) \<longrightarrow>
        (\<exists>result s'. PoolImpl_Get debug isolate s = Inr (result, s') \<and> PoolImpl_invariant s')) \<and>
     PoolImpl_invariant (snd (snd (PoolImpl_ReleaseUpTo release_time s)))"
  using PoolImpl_invariant_MoveLocalToShared PoolImpl_invariant_Get PoolImpl_invariant_ReleaseUpTo
  by blast

theorem PoolImpl_no_empty_container_witness:
  "PoolImpl_invariant \<lparr>local_pools = fmupd 1 [10::nat] fmempty, shared_pool = [(2, [20])]\<rparr> \<and>
   (\<exists>s'. PoolImpl_MoveLocalToShared True 1 2
            \<lparr>local_pools = fmupd 1 [10::nat] fmempty, shared_pool = [(2, [20])]\<rparr>
          = Inr (shared_pool s' \<noteq> [], s') \<and> PoolImpl_invariant s') \<and>
   (\<exists>result s'. PoolImpl_Get True 1
            \<lparr>local_pools = fmupd 1 [10::nat] fmempty, shared_pool = [(2, [20])]\<rparr>
          = Inr (result, s') \<and> PoolImpl_invariant s') \<and>
   PoolImpl_invariant (snd (snd (PoolImpl_ReleaseUpTo 2
            \<lparr>local_pools = fmupd 1 [10::nat] fmempty, shared_pool = [(2, [20])]\<rparr>)))"
proof -
  let ?s = "\<lparr>local_pools = fmupd 1 [10::nat] fmempty, shared_pool = [(2, [20])]\<rparr>"
  have inv: "PoolImpl_invariant ?s"
    by (simp add: PoolImpl_invariant_def fmpred_upd)
  have nn: "True \<longrightarrow> (1::nat) \<noteq> nullptr"
    by (simp add: nullptr_def)
  from PoolImpl_no_empty_container [OF inv, of True 1 2] nn inv show ?thesis
    by blast
qed

subsection \<open>The counters of the generic pool\<close>

lemma fold_add_length:
  "fold (\<lambda>entry count. count + length (snd entry)) xs (n::nat)
     = n + sum_list (map (\<lambda>entry. length (snd entry)) xs)"
  by (induction xs arbitrary: n) simp_all

lemma sum_list_sorted_list_of_fmap:
  "sum_list (map (\<lambda>entry. length (snd entry)) (sorted_list_of_fmap m))
     = (\<Sum>isolate\<in>fset (fmdom m). length (the (fmlookup m isolate)))"
proof -
  have "sum_list (map (\<lambda>entry. length (snd entry)) (sorted_list_of_fmap m))
      = sum_list (map (\<lambda>isolate. length (the (fmlookup m isolate))) (sorted_list_of_fset (fmdom m)))"
    by (simp add: sorted_list_of_fmap_def comp_def)
  also have "\<dots> = (\<Sum>isolate\<in>set (sorted_list_of_fset (fmdom m)). length (the (fmlookup m isolate)))"
    by (rule sum_list_distinct_conv_sum_set) (simp add: sorted_list_of_fset.rep_eq)
  finally show ?thesis by simp
qed

lemma PoolImpl_LocalSize_dom:
  "PoolImpl_LocalSize isolate s =
     (if isolate |\<in>| fmdom (local_pools s) then length (the (fmlookup (local_pools s) isolate)) else 0)"
  by (auto simp: PoolImpl_LocalSize_def fmlookup_dom_iff split: option.splits)

lemma sum_LocalSize:
  assumes "finite owners" and "fset (fmdom (local_pools s)) \<subseteq> owners"
  shows "(\<Sum>isolate\<in>owners. PoolImpl_LocalSize isolate s)
       = (\<Sum>isolate\<in>fset (fmdom (local_pools s)). length (the (fmlookup (local_pools s) isolate)))"
proof -
  have "(\<Sum>isolate\<in>fset (fmdom (local_pools s)). length (the (fmlookup (local_pools s) isolate)))
      = (\<Sum>isolate\<in>fset (fmdom (local_pools s)). PoolImpl_LocalSize isolate s)"
    by (rule sum.cong) (simp_all add: PoolImpl_LocalSize_dom)
  also have "\<dots> = (\<Sum>isolate\<in>owners. PoolImpl_LocalSize isolate s)"
    using assms by (intro sum.mono_neutral_left) (auto simp: PoolImpl_LocalSize_dom)
  finally show ?thesis by simp
qed

text \<open>
  Claim C6. For every state of the generic pool, \<open>Size()\<close> is the sum of
  \<open>LocalSize(owner)\<close> over all owners plus \<open>SharedSize()\<close>. "All owners" is any
  finite set of isolates that contains the keys of \<open>local_pools_\<close>: an isolate
  without a local pool counts 0.
\<close>

theorem PoolImpl_Size_sum:
  assumes "finite owners" and "fset (fmdom (local_pools s)) \<subseteq> owners"
  shows "PoolImpl_Size s = (\<Sum>isolate\<in>owners. PoolImpl_LocalSize isolate s) + PoolImpl_SharedSize s"
  by (simp add: PoolImpl_Size_def PoolImpl_SharedSize_def fold_add_length
      sum_list_sorted_list_of_fmap sum_LocalSize[OF assms])

theorem PoolImpl_Size_sum_witness:
  "finite {1, 2, 3::nat} \<and>
   fset (fmdom (local_pools \<lparr>local_pools = fmupd 1 [10, 11::nat] (fmupd 2 [12] fmempty),
                             shared_pool = [(5, [20, 21]), (6, [22])]\<rparr>)) \<subseteq> {1, 2, 3} \<and>
   PoolImpl_Size \<lparr>local_pools = fmupd 1 [10, 11::nat] (fmupd 2 [12] fmempty),
                  shared_pool = [(5, [20, 21]), (6, [22])]\<rparr> = 6 \<and>
   (\<Sum>isolate\<in>{1, 2, 3}. PoolImpl_LocalSize isolate
        \<lparr>local_pools = fmupd 1 [10, 11::nat] (fmupd 2 [12] fmempty),
         shared_pool = [(5, [20, 21]), (6, [22])]\<rparr>) = 3 \<and>
   PoolImpl_SharedSize \<lparr>local_pools = fmupd 1 [10, 11::nat] (fmupd 2 [12] fmempty),
                        shared_pool = [(5, [20, 21]), (6, [22])]\<rparr> = 3"
proof -
  let ?s = "\<lparr>local_pools = fmupd 1 [10, 11::nat] (fmupd 2 [12] fmempty),
             shared_pool = [(5, [20, 21]), (6, [22])]\<rparr>"
  have f: "finite {1, 2, 3::nat}" by simp
  have d: "fset (fmdom (local_pools ?s)) \<subseteq> {1, 2, 3}" by simp
  have l: "(\<Sum>isolate\<in>{1, 2, 3}. PoolImpl_LocalSize isolate ?s) = 3"
    by (simp add: PoolImpl_LocalSize_def)
  have sh: "PoolImpl_SharedSize ?s = 3"
    by (simp add: PoolImpl_SharedSize_def)
  from PoolImpl_Size_sum [OF f d] l sh f d show ?thesis
    by simp
qed

subsection \<open>Lookup in the generic pool\<close>

lemma fmdrop_fmupd_absent: "fmlookup m k = None \<Longrightarrow> fmdrop k (fmupd k v m) = m"
  by (rule fmap_ext) auto

lemma fmupd_present: "fmlookup m k = Some v \<Longrightarrow> fmupd k v m = m"
  by (rule fmap_ext) auto

lemma PoolImpl_Get_local:
  assumes "debug \<longrightarrow> isolate \<noteq> nullptr"
    and "fmlookup (local_pools s) isolate = Some entries" and "entries \<noteq> []"
  shows "PoolImpl_Get debug isolate s =
     Inr (Some (last entries),
          s\<lparr>local_pools := (if butlast entries = [] then fmdrop isolate (local_pools s)
                             else fmupd isolate (butlast entries) (local_pools s))\<rparr>)"
  using assms by (simp add: PoolImpl_Get_def DCHECK_def Let_def)

lemma PoolImpl_Get_shared:
  assumes "debug \<longrightarrow> isolate \<noteq> nullptr"
    and "fmlookup (local_pools s) isolate = None"
    and "shared_pool s \<noteq> []" and "snd (last (shared_pool s)) \<noteq> []"
  shows "PoolImpl_Get debug isolate s =
     Inr (Some (last (snd (last (shared_pool s)))),
          s\<lparr>shared_pool :=
              (if butlast (snd (last (shared_pool s))) = [] then butlast (shared_pool s)
               else butlast (shared_pool s) @
                    [(fst (last (shared_pool s)), butlast (snd (last (shared_pool s))))])\<rparr>)"
  using assms by (simp add: PoolImpl_Get_def DCHECK_def Let_def)

lemma PoolImpl_Get_none:
  assumes "debug \<longrightarrow> isolate \<noteq> nullptr"
    and "fmlookup (local_pools s) isolate = None" and "shared_pool s = []"
  shows "PoolImpl_Get debug isolate s = Inr (None, s)"
  using assms by (simp add: PoolImpl_Get_def DCHECK_def)

lemma PoolImpl_Get_PutLocal:
  assumes nn: "debug \<longrightarrow> isolate \<noteq> nullptr"
    and ne: "fmlookup (local_pools s) isolate \<noteq> Some []"
  shows "PoolImpl_Get debug isolate (PoolImpl_PutLocal isolate entry s) = Inr (Some entry, s)"
proof (cases "fmlookup (local_pools s) isolate")
  case None
  with nn show ?thesis
    by (simp add: PoolImpl_Get_def PoolImpl_PutLocal_def DCHECK_def Let_def fmdrop_fmupd_absent)
next
  case (Some entries)
  with nn ne show ?thesis
    by (simp add: PoolImpl_Get_def PoolImpl_PutLocal_def DCHECK_def Let_def fmupd_present)
qed

lemma PutLocal_lookup_nonempty:
  "fmlookup (local_pools (PoolImpl_PutLocal isolate entry s)) isolate \<noteq> Some []"
  by (simp add: PoolImpl_PutLocal_def Let_def)

lemma PutLocal_each_snoc:
  "PutLocal_each isolate (entries @ [entry]) s
     = PoolImpl_PutLocal isolate entry (PutLocal_each isolate entries s)"
  by (simp add: PutLocal_each_def)

lemma PutLocal_each_lookup_nonempty:
  "fmlookup (local_pools s) isolate \<noteq> Some [] \<Longrightarrow>
   fmlookup (local_pools (PutLocal_each isolate entries s)) isolate \<noteq> Some []"
  by (induction entries rule: rev_induct)
     (simp_all add: PutLocal_each_snoc PutLocal_lookup_nonempty, simp add: PutLocal_each_def)

lemma Get_times_PutLocal_each:
  assumes nn: "debug \<longrightarrow> isolate \<noteq> nullptr"
    and ne: "fmlookup (local_pools s) isolate \<noteq> Some []"
  shows "Get_times debug isolate (length entries) (PutLocal_each isolate entries s)
           = Inr (map Some (rev entries), s)"
proof (induction entries rule: rev_induct)
  case Nil
  show ?case by (simp add: PutLocal_each_def)
next
  case (snoc entry entries)
  have "PoolImpl_Get debug isolate (PutLocal_each isolate (entries @ [entry]) s)
          = Inr (Some entry, PutLocal_each isolate entries s)"
    unfolding PutLocal_each_snoc
    by (rule PoolImpl_Get_PutLocal [OF nn PutLocal_each_lookup_nonempty [OF ne]])
  with snoc show ?case by simp
qed

lemma Get_times_add:
  "Get_times debug isolate (m + n) s =
     (case Get_times debug isolate m s of
        Inl e \<Rightarrow> Inl e
      | Inr (results, s') \<Rightarrow>
          (case Get_times debug isolate n s' of
             Inl e \<Rightarrow> Inl e
           | Inr (results', s'') \<Rightarrow> Inr (results @ results', s'')))"
  by (induction m arbitrary: s) (auto split: sum.splits prod.splits)

lemma Get_times_drained:
  assumes "debug \<longrightarrow> isolate \<noteq> nullptr"
    and "fmlookup (local_pools s) isolate = None" and "shared_pool s = []"
  shows "Get_times debug isolate n s = Inr (replicate n None, s)"
  by (induction n) (simp_all add: PoolImpl_Get_none [OF assms])

lemma Get_times_drain_shared:
  assumes nn: "debug \<longrightarrow> isolate \<noteq> nullptr"
  shows "fmlookup (local_pools s) isolate = None \<Longrightarrow>
         list_all (\<lambda>batch. snd batch \<noteq> []) (shared_pool s) \<Longrightarrow>
         length (concat (map snd (shared_pool s))) = k \<Longrightarrow>
         Get_times debug isolate k s
           = Inr (map Some (rev (concat (map snd (shared_pool s)))), s\<lparr>shared_pool := []\<rparr>)"
proof (induction k arbitrary: s)
  case 0
  then have "shared_pool s = []"
    by (cases "shared_pool s") (auto)
  then show ?case by simp
next
  case (Suc k)
  from Suc.prems(3) have ne: "shared_pool s \<noteq> []" by auto
  define batches where "batches = butlast (shared_pool s)"
  define t where "t = fst (last (shared_pool s))"
  define es where "es = butlast (snd (last (shared_pool s)))"
  define e where "e = last (snd (last (shared_pool s)))"
  from ne Suc.prems(2) have bne: "snd (last (shared_pool s)) \<noteq> []"
    by (simp add: list_all_iff)
  have sp: "shared_pool s = batches @ [(t, es @ [e])]"
    using ne bne by (simp add: batches_def t_def es_def e_def)
  let ?s' = "s\<lparr>shared_pool := (if es = [] then batches else batches @ [(t, es)])\<rparr>"
  have get: "PoolImpl_Get debug isolate s = Inr (Some e, ?s')"
    using PoolImpl_Get_shared [OF nn Suc.prems(1) ne bne]
    by (simp add: batches_def t_def es_def e_def)
  have l: "fmlookup (local_pools ?s') isolate = None"
    using Suc.prems(1) by simp
  have a: "list_all (\<lambda>batch. snd batch \<noteq> []) (shared_pool ?s')"
    using Suc.prems(2) by (simp add: sp)
  have c: "concat (map snd (shared_pool ?s')) = concat (map snd batches) @ es"
    by simp
  have n: "length (concat (map snd (shared_pool ?s'))) = k"
    using Suc.prems(3) unfolding c by (simp add: sp)
  have "Get_times debug isolate k ?s'
          = Inr (map Some (rev (concat (map snd (shared_pool ?s')))), ?s'\<lparr>shared_pool := []\<rparr>)"
    by (rule Suc.IH [OF l a n])
  then have "Get_times debug isolate k ?s'
          = Inr (map Some (rev (concat (map snd batches) @ es)), s\<lparr>shared_pool := []\<rparr>)"
    unfolding c by simp
  with get show ?case
    by (simp add: sp)
qed

lemma Get_times_PutLocal_each_drain:
  assumes nn: "debug \<longrightarrow> isolate \<noteq> nullptr"
    and inv: "PoolImpl_invariant s"
    and none: "fmlookup (local_pools s) isolate = None"
  shows "Get_times debug isolate
           (length entries + (length (concat (map snd (shared_pool s))) + n))
           (PutLocal_each isolate entries s)
         = Inr (map Some (rev entries) @ map Some (rev (concat (map snd (shared_pool s))))
                  @ replicate n None,
                s\<lparr>shared_pool := []\<rparr>)"
proof -
  from none have ne: "fmlookup (local_pools s) isolate \<noteq> Some []" by simp
  from inv have a: "list_all (\<lambda>batch. snd batch \<noteq> []) (shared_pool s)"
    by (simp add: PoolImpl_invariant_def)
  have d: "Get_times debug isolate n (s\<lparr>shared_pool := []\<rparr>)
             = Inr (replicate n None, s\<lparr>shared_pool := []\<rparr>)"
    by (rule Get_times_drained [OF nn]) (simp_all add: none)
  show ?thesis
    by (simp add: Get_times_add [of _ _ "length entries"]
        Get_times_add [of _ _ "length (concat (map snd (shared_pool s)))"]
        Get_times_PutLocal_each [OF nn ne]
        Get_times_drain_shared [OF nn none a refl] d)
qed

text \<open>
  Claim C3. In a state that satisfies the invariant, for an isolate that is not null:
  \<open>Get\<close> returns the last element of the isolate's local vector when it has one, and
  changes nothing but \<open>local_pools_\<close>; without a local vector it returns the last
  element of the last shared batch; without a local vector and with an empty shared pool
  it returns none. Consequently \<open>PutLocal\<close> of a list of entries followed by as many
  calls of \<open>Get\<close> by the same isolate returns the entries in reverse order and restores
  the state; for an isolate that had no local vector, further calls return what the shared
  pool holds, last batch and last entry first, and then none for ever.
\<close>

theorem PoolImpl_Get_LIFO:
  assumes nn: "debug \<longrightarrow> isolate \<noteq> nullptr" and inv: "PoolImpl_invariant s"
  shows
   "(\<forall>entries. fmlookup (local_pools s) isolate = Some entries \<longrightarrow>
       PoolImpl_Get debug isolate s =
         Inr (Some (last entries),
              s\<lparr>local_pools := (if butlast entries = [] then fmdrop isolate (local_pools s)
                                 else fmupd isolate (butlast entries) (local_pools s))\<rparr>)) \<and>
    (fmlookup (local_pools s) isolate = None \<and> shared_pool s \<noteq> [] \<longrightarrow>
       PoolImpl_Get debug isolate s =
         Inr (Some (last (snd (last (shared_pool s)))),
              s\<lparr>shared_pool :=
                  (if butlast (snd (last (shared_pool s))) = [] then butlast (shared_pool s)
                   else butlast (shared_pool s) @
                        [(fst (last (shared_pool s)), butlast (snd (last (shared_pool s))))])\<rparr>)) \<and>
    (fmlookup (local_pools s) isolate = None \<and> shared_pool s = [] \<longrightarrow>
       PoolImpl_Get debug isolate s = Inr (None, s)) \<and>
    (\<forall>entries.
       Get_times debug isolate (length entries) (PutLocal_each isolate entries s)
         = Inr (map Some (rev entries), s)) \<and>
    (\<forall>entries n. fmlookup (local_pools s) isolate = None \<longrightarrow>
       Get_times debug isolate
           (length entries + (length (concat (map snd (shared_pool s))) + n))
           (PutLocal_each isolate entries s)
         = Inr (map Some (rev entries) @ map Some (rev (concat (map snd (shared_pool s))))
                  @ replicate n None,
                s\<lparr>shared_pool := []\<rparr>))"
proof (intro conjI allI impI)
  fix entries
  assume "fmlookup (local_pools s) isolate = Some entries"
  moreover from this inv have "entries \<noteq> []" by (rule PoolImpl_invariant_lookup [rotated])
  ultimately show "PoolImpl_Get debug isolate s =
         Inr (Some (last entries),
              s\<lparr>local_pools := (if butlast entries = [] then fmdrop isolate (local_pools s)
                                 else fmupd isolate (butlast entries) (local_pools s))\<rparr>)"
    by (rule PoolImpl_Get_local [OF nn])
next
  assume a: "fmlookup (local_pools s) isolate = None \<and> shared_pool s \<noteq> []"
  with inv have "snd (last (shared_pool s)) \<noteq> []"
    by (simp add: PoolImpl_invariant_last_batch)
  with a show "PoolImpl_Get debug isolate s =
         Inr (Some (last (snd (last (shared_pool s)))),
              s\<lparr>shared_pool :=
                  (if butlast (snd (last (shared_pool s))) = [] then butlast (shared_pool s)
                   else butlast (shared_pool s) @
                        [(fst (last (shared_pool s)), butlast (snd (last (shared_pool s))))])\<rparr>)"
    by (simp add: PoolImpl_Get_shared [OF nn])
next
  assume "fmlookup (local_pools s) isolate = None \<and> shared_pool s = []"
  then show "PoolImpl_Get debug isolate s = Inr (None, s)"
    by (simp add: PoolImpl_Get_none [OF nn])
next
  fix entries
  from inv have "fmlookup (local_pools s) isolate \<noteq> Some []"
    by (auto dest: PoolImpl_invariant_lookup)
  then show "Get_times debug isolate (length entries) (PutLocal_each isolate entries s)
         = Inr (map Some (rev entries), s)"
    by (rule Get_times_PutLocal_each [OF nn])
next
  fix entries n
  assume "fmlookup (local_pools s) isolate = None"
  then show "Get_times debug isolate
           (length entries + (length (concat (map snd (shared_pool s))) + n))
           (PutLocal_each isolate entries s)
         = Inr (map Some (rev entries) @ map Some (rev (concat (map snd (shared_pool s))))
                  @ replicate n None,
                s\<lparr>shared_pool := []\<rparr>)"
    by (rule Get_times_PutLocal_each_drain [OF nn inv])
qed

theorem PoolImpl_Get_LIFO_witness:
  "PoolImpl_invariant
     \<lparr>local_pools = fmupd 1 [10, 11::int] fmempty, shared_pool = [(2, [20]), (3, [30, 31])]\<rparr> \<and>
   PoolImpl_Get True 1
     \<lparr>local_pools = fmupd 1 [10, 11::int] fmempty, shared_pool = [(2, [20]), (3, [30, 31])]\<rparr>
     = Inr (Some 11,
        \<lparr>local_pools = fmupd 1 [10] fmempty, shared_pool = [(2, [20]), (3, [30, 31])]\<rparr>) \<and>
   PoolImpl_Get True 2
     \<lparr>local_pools = fmupd 1 [10, 11::int] fmempty, shared_pool = [(2, [20]), (3, [30, 31])]\<rparr>
     = Inr (Some 31,
        \<lparr>local_pools = fmupd 1 [10, 11] fmempty, shared_pool = [(2, [20]), (3, [30])]\<rparr>) \<and>
   Get_times True 2 6 (PutLocal_each 2 [40, 41]
     \<lparr>local_pools = fmupd 1 [10, 11::int] fmempty, shared_pool = [(2, [20]), (3, [30, 31])]\<rparr>)
     = Inr ([Some 41, Some 40, Some 31, Some 30, Some 20, None],
        \<lparr>local_pools = fmupd 1 [10, 11] fmempty, shared_pool = []\<rparr>)"
proof -
  let ?s = "\<lparr>local_pools = fmupd 1 [10, 11::int] fmempty,
             shared_pool = [(2, [20]), (3, [30, 31])]\<rparr>"
  have inv: "PoolImpl_invariant ?s"
    by (simp add: PoolImpl_invariant_def fmpred_upd)
  have n1: "True \<longrightarrow> (1::nat) \<noteq> nullptr" and n2: "True \<longrightarrow> (2::nat) \<noteq> nullptr"
    by (simp_all add: nullptr_def)
  have g1: "PoolImpl_Get True 1 ?s
     = Inr (Some 11, \<lparr>local_pools = fmupd 1 [10] fmempty,
                      shared_pool = [(2, [20]), (3, [30, 31])]\<rparr>)"
    using PoolImpl_Get_LIFO [OF n1 inv] by simp
  have g2: "PoolImpl_Get True 2 ?s
     = Inr (Some 31, \<lparr>local_pools = fmupd 1 [10, 11] fmempty,
                      shared_pool = [(2, [20]), (3, [30])]\<rparr>)"
    using PoolImpl_Get_LIFO [OF n2 inv] by simp
  have "fmlookup (local_pools ?s) 2 = None"
    by simp
  with PoolImpl_Get_LIFO [OF n2 inv]
  have "Get_times True 2 (length [40, 41::int] + (length (concat (map snd (shared_pool ?s))) + 1))
          (PutLocal_each 2 [40, 41] ?s)
        = Inr (map Some (rev [40, 41]) @ map Some (rev (concat (map snd (shared_pool ?s))))
                 @ replicate 1 None, ?s\<lparr>shared_pool := []\<rparr>)"
    by blast
  then have "Get_times True 2 (Suc (Suc (Suc (Suc (Suc (Suc 0)))))) (PutLocal_each 2 [40, 41] ?s)
     = Inr ([Some 41, Some 40, Some 31, Some 30, Some 20, None],
        \<lparr>local_pools = fmupd 1 [10, 11] fmempty, shared_pool = []\<rparr>)"
    by (simp del: Get_times.simps)
  moreover have "(6::nat) = Suc (Suc (Suc (Suc (Suc (Suc 0)))))"
    by simp
  ultimately have g3: "Get_times True 2 6 (PutLocal_each 2 [40, 41] ?s)
     = Inr ([Some 41, Some 40, Some 31, Some 30, Some 20, None],
        \<lparr>local_pools = fmupd 1 [10, 11] fmempty, shared_pool = []\<rparr>)"
    by (simp only:)
  from inv g1 g2 g3 show ?thesis
    by (intro conjI)
qed

subsection \<open>Best-fit removal from the large page pool\<close>

lemma best_fit_snoc_keep:
  assumes "best_fit chunk_size pre j"
    and "size_bytes (snd entry) < chunk_size \<or> size_bytes (snd (pre ! j)) \<le> size_bytes (snd entry)"
  shows "best_fit chunk_size (pre @ [entry]) j"
  using assms unfolding best_fit_def
  by (auto simp: nth_append less_Suc_eq)

lemma best_fit_snoc_first:
  assumes "\<forall>e\<in>set pre. size_bytes (snd e) < chunk_size"
    and "chunk_size \<le> size_bytes (snd entry)"
  shows "best_fit chunk_size (pre @ [entry]) (length pre)"
  using assms unfolding best_fit_def
  by (auto simp: nth_append less_Suc_eq not_le [symmetric])

lemma best_fit_snoc_better:
  assumes "best_fit chunk_size pre j"
    and "chunk_size \<le> size_bytes (snd entry)"
    and "size_bytes (snd entry) < size_bytes (snd (pre ! j))"
  shows "best_fit chunk_size (pre @ [entry]) (length pre)"
  using assms unfolding best_fit_def
  by (auto simp: nth_append less_Suc_eq)


lemma Remove_loop_best_fit:
  assumes "pages_all = pre @ rest" and "it = length pre"
    and "case selected of
           None \<Rightarrow> \<forall>e\<in>set pre. size_bytes (snd e) < chunk_size
         | Some j \<Rightarrow> best_fit chunk_size pre j"
  shows "case Remove_loop chunk_size pages_all rest it selected of
           None \<Rightarrow> \<forall>e\<in>set pages_all. size_bytes (snd e) < chunk_size
         | Some j \<Rightarrow> best_fit chunk_size pages_all j"
  using assms
proof (induction rest arbitrary: pre it selected)
  case Nil
  then show ?case by (simp split: option.splits)
next
  case (Cons entry rest)
  have all: "pages_all = (pre @ [entry]) @ rest"
    using Cons.prems(1) by simp
  have it': "it + 1 = length (pre @ [entry])"
    using Cons.prems(2) by simp
  show ?case
  proof (cases "size_bytes (snd entry) < chunk_size")
    case True
    have "case selected of
            None \<Rightarrow> \<forall>e\<in>set (pre @ [entry]). size_bytes (snd e) < chunk_size
          | Some j \<Rightarrow> best_fit chunk_size (pre @ [entry]) j"
      using Cons.prems(3) True
      by (auto split: option.splits intro: best_fit_snoc_keep)
    from Cons.IH [OF all it' this] True show ?thesis
      by simp
  next
    case False
    then have q: "chunk_size \<le> size_bytes (snd entry)" by simp
    show ?thesis
    proof (cases selected)
      case None
      with Cons.prems(3) q have "best_fit chunk_size (pre @ [entry]) (length pre)"
        by (simp add: best_fit_snoc_first)
      then have "case Some it of
            None \<Rightarrow> \<forall>e\<in>set (pre @ [entry]). size_bytes (snd e) < chunk_size
          | Some j \<Rightarrow> best_fit chunk_size (pre @ [entry]) j"
        using Cons.prems(2) by simp
      from Cons.IH [OF all it' this] False None show ?thesis
        by simp
    next
      case (Some j)
      with Cons.prems(3) have bf: "best_fit chunk_size pre j" by simp
      then have "j < length pre" by (simp add: best_fit_def)
      then have nth: "pages_all ! j = pre ! j"
        using Cons.prems(1) by (simp add: nth_append)
      show ?thesis
      proof (cases "size_bytes (snd entry) < size_bytes (snd (pre ! j))")
        case True
        with bf q have "best_fit chunk_size (pre @ [entry]) (length pre)"
          by (simp add: best_fit_snoc_better)
        then have "case Some it of
              None \<Rightarrow> \<forall>e\<in>set (pre @ [entry]). size_bytes (snd e) < chunk_size
            | Some j \<Rightarrow> best_fit chunk_size (pre @ [entry]) j"
          using Cons.prems(2) by simp
        from Cons.IH [OF all it' this] False Some True nth show ?thesis
          by simp
      next
        case ge: False
        then have "size_bytes (snd (pre ! j)) \<le> size_bytes (snd entry)"
          by simp
        with bf have "best_fit chunk_size (pre @ [entry]) j"
          by (simp add: best_fit_snoc_keep)
        then have "case selected of
              None \<Rightarrow> \<forall>e\<in>set (pre @ [entry]). size_bytes (snd e) < chunk_size
            | Some j \<Rightarrow> best_fit chunk_size (pre @ [entry]) j"
          using Some by simp
        from Cons.IH [OF all it' this] False Some ge nth show ?thesis
          by simp
      qed
    qed
  qed
qed

lemma Remove_loop_start:
  "case Remove_loop chunk_size entries entries 0 None of
     None \<Rightarrow> \<forall>e\<in>set entries. size_bytes (snd e) < chunk_size
   | Some j \<Rightarrow> best_fit chunk_size entries j"
  by (rule Remove_loop_best_fit [where pre = "[]"]) simp_all

lemma sum_list_remove_nth:
  fixes f :: "'a \<Rightarrow> size_t"
  assumes "i < length xs"
  shows "sum_list (map f (take i xs @ drop (Suc i) xs)) = sum_list (map f xs) - f (xs ! i)"
proof -
  have "sum_list (map f xs) = sum_list (map f (take i xs @ xs ! i # drop (Suc i) xs))"
    using assms by (simp only: id_take_nth_drop [symmetric])
  also have "\<dots> = sum_list (map f (take i xs @ drop (Suc i) xs)) + f (xs ! i)"
    by (simp add: add.assoc add.commute)
  finally show ?thesis by simp
qed

lemma LargePagePoolImpl_Remove_found:
  assumes inv: "total_size s = LargePagePoolImpl_ComputeTotalSize s"
    and sel: "Remove_loop chunk_size (pages s) (pages s) 0 None = Some i"
  shows "best_fit chunk_size (pages s) i \<and>
         LargePagePoolImpl_Remove debug chunk_size s =
           Inr (Some (snd (pages s ! i)),
                s\<lparr>total_size := total_size s - size_bytes (snd (pages s ! i)),
                  pages := take i (pages s) @ drop (Suc i) (pages s)\<rparr>)"
proof -
  from Remove_loop_start [where chunk_size = chunk_size and entries = "pages s"] sel
  have bf: "best_fit chunk_size (pages s) i" by simp
  then have i: "i < length (pages s)" by (simp add: best_fit_def)
  let ?s' = "s\<lparr>total_size := total_size s - size_bytes (snd (pages s ! i)),
                pages := take i (pages s) @ drop (Suc i) (pages s)\<rparr>"
  have "LargePagePoolImpl_ComputeTotalSize ?s'
          = LargePagePoolImpl_ComputeTotalSize s - size_bytes (snd (pages s ! i))"
    using sum_list_remove_nth [OF i, of "\<lambda>entry. size_bytes (snd entry)"]
    by (simp add: ComputeTotalSize_sum_list)
  then have ok: "total_size ?s' = LargePagePoolImpl_ComputeTotalSize ?s'"
    using inv by simp
  have "LargePagePoolImpl_Remove debug chunk_size s = Inr (Some (snd (pages s ! i)), ?s')"
    unfolding LargePagePoolImpl_Remove_def Let_def sel option.case
    using inv ok by (simp only: DCHECK_def simp_thms if_False)
  with bf show ?thesis by simp
qed

lemma LargePagePoolImpl_Remove_none:
  assumes inv: "total_size s = LargePagePoolImpl_ComputeTotalSize s"
    and sel: "Remove_loop chunk_size (pages s) (pages s) 0 None = None"
  shows "(\<forall>entry\<in>set (pages s). size_bytes (snd entry) < chunk_size) \<and>
         LargePagePoolImpl_Remove debug chunk_size s = Inr (None, s)"
proof -
  from Remove_loop_start [where chunk_size = chunk_size and entries = "pages s"] sel
  have "\<forall>entry\<in>set (pages s). size_bytes (snd entry) < chunk_size" by simp
  moreover have "LargePagePoolImpl_Remove debug chunk_size s = Inr (None, s)"
    using inv by (simp add: LargePagePoolImpl_Remove_def sel DCHECK_def)
  ultimately show ?thesis by simp
qed

lemma best_fit_qualifies:
  "best_fit chunk_size entries i \<Longrightarrow> \<exists>entry\<in>set entries. chunk_size \<le> size_bytes (snd entry)"
  unfolding best_fit_def by (metis nth_mem)

lemma LargePagePoolImpl_Remove_cases:
  assumes inv: "total_size s = LargePagePoolImpl_ComputeTotalSize s"
  shows "if \<exists>entry\<in>set (pages s). chunk_size \<le> size_bytes (snd entry)
         then \<exists>i. best_fit chunk_size (pages s) i \<and>
                LargePagePoolImpl_Remove debug chunk_size s =
                  Inr (Some (snd (pages s ! i)),
                       s\<lparr>total_size := total_size s - size_bytes (snd (pages s ! i)),
                         pages := take i (pages s) @ drop (Suc i) (pages s)\<rparr>)
         else LargePagePoolImpl_Remove debug chunk_size s = Inr (None, s)"
proof (cases "Remove_loop chunk_size (pages s) (pages s) 0 None")
  case None
  from LargePagePoolImpl_Remove_none [OF inv None, of debug] show ?thesis
    by (auto simp: not_le [symmetric])
next
  case (Some i)
  from LargePagePoolImpl_Remove_found [OF inv Some, of debug] show ?thesis
    by (auto dest: best_fit_qualifies)
qed

lemma Remove_15_of_10_20_30:
  assumes inv: "total_size s = LargePagePoolImpl_ComputeTotalSize s"
    and sizes: "(\<lambda>entry. size_bytes (snd entry)) ` set (pages s) = {10, 20, 30}"
  shows "\<exists>page s'. LargePagePoolImpl_Remove debug 15 s = Inr (Some page, s')
            \<and> size_bytes page = 20"
proof -
  from sizes have "(20::size_t) \<in> (\<lambda>entry. size_bytes (snd entry)) ` set (pages s)"
    by simp
  then obtain e where e: "e \<in> set (pages s)" "size_bytes (snd e) = 20"
    by auto
  then obtain j where j: "j < length (pages s)" "pages s ! j = e"
    by (auto simp: in_set_conv_nth)
  from e have "\<exists>entry\<in>set (pages s). (15::size_t) \<le> size_bytes (snd entry)"
    by (intro bexI [of _ e]) simp_all
  with LargePagePoolImpl_Remove_cases [OF inv, of 15 debug]
  obtain i where bf: "best_fit 15 (pages s) i"
    and r: "LargePagePoolImpl_Remove debug 15 s =
              Inr (Some (snd (pages s ! i)),
                   s\<lparr>total_size := total_size s - size_bytes (snd (pages s ! i)),
                     pages := take i (pages s) @ drop (Suc i) (pages s)\<rparr>)"
    by auto
  from bf have i: "i < length (pages s)" and ge: "15 \<le> size_bytes (snd (pages s ! i))"
    by (simp_all add: best_fit_def)
  from bf j(1) have "15 \<le> size_bytes (snd (pages s ! j)) \<longrightarrow>
      size_bytes (snd (pages s ! i)) \<le> size_bytes (snd (pages s ! j))"
    by (simp add: best_fit_def)
  with j e have le: "size_bytes (snd (pages s ! i)) \<le> 20"
    by simp
  from i have "size_bytes (snd (pages s ! i)) \<in> (\<lambda>entry. size_bytes (snd entry)) ` set (pages s)"
    by simp
  with sizes have "size_bytes (snd (pages s ! i)) \<in> {10, 20, 30}"
    by simp
  with ge le have "size_bytes (snd (pages s ! i)) = 20"
    by auto
  with r show ?thesis by blast
qed

lemma Remove_35_of_10_20_30:
  assumes inv: "total_size s = LargePagePoolImpl_ComputeTotalSize s"
    and sizes: "(\<lambda>entry. size_bytes (snd entry)) ` set (pages s) = {10, 20, 30}"
  shows "LargePagePoolImpl_Remove debug 35 s = Inr (None, s)"
proof -
  have "\<not> (\<exists>entry\<in>set (pages s). (35::size_t) \<le> size_bytes (snd entry))"
  proof
    assume "\<exists>entry\<in>set (pages s). (35::size_t) \<le> size_bytes (snd entry)"
    then obtain e where "e \<in> set (pages s)" and ge: "35 \<le> size_bytes (snd e)" by auto
    then have "size_bytes (snd e) \<in> (\<lambda>entry. size_bytes (snd entry)) ` set (pages s)"
      by simp
    with sizes have "size_bytes (snd e) \<in> {10, 20, 30}" by simp
    with ge show False by auto
  qed
  with LargePagePoolImpl_Remove_cases [OF inv, of 35 debug] show ?thesis
    by simp
qed

text \<open>
  Claim C2. In a state whose aggregate is the computed total (which a debug build
  asserts), \<open>Remove(chunk_size)\<close> returns the entry at the best-fit position, erases
  it and subtracts its size from the aggregate, when some retained entry has at least
  \<open>chunk_size\<close> bytes; otherwise it returns null and changes nothing. With retained
  sizes 10, 20 and 30, \<open>Remove(15)\<close> returns a page of size 20 and \<open>Remove(35)\<close>
  returns null.
\<close>

theorem LargePagePoolImpl_Remove_best_fit:
  assumes inv: "total_size s = LargePagePoolImpl_ComputeTotalSize s"
  shows
   "(if \<exists>entry\<in>set (pages s). chunk_size \<le> size_bytes (snd entry)
     then \<exists>i. best_fit chunk_size (pages s) i \<and>
            LargePagePoolImpl_Remove debug chunk_size s =
              Inr (Some (snd (pages s ! i)),
                   s\<lparr>total_size := total_size s - size_bytes (snd (pages s ! i)),
                     pages := take i (pages s) @ drop (Suc i) (pages s)\<rparr>)
     else LargePagePoolImpl_Remove debug chunk_size s = Inr (None, s)) \<and>
    ((\<lambda>entry. size_bytes (snd entry)) ` set (pages s) = {10, 20, 30} \<longrightarrow>
       (\<exists>page s'. LargePagePoolImpl_Remove debug 15 s = Inr (Some page, s')
           \<and> size_bytes page = 20) \<and>
       LargePagePoolImpl_Remove debug 35 s = Inr (None, s))"
  using LargePagePoolImpl_Remove_cases [OF inv, of chunk_size debug]
    Remove_15_of_10_20_30 [OF inv, of debug] Remove_35_of_10_20_30 [OF inv, of debug]
  by blast

theorem LargePagePoolImpl_Remove_best_fit_witness:
  "total_size
     \<lparr>pages = [(1, \<lparr>metadata_address = 4096, size_bytes = 30\<rparr>),
               (1, \<lparr>metadata_address = 8192, size_bytes = 10\<rparr>),
               (2, \<lparr>metadata_address = 12288, size_bytes = 20\<rparr>),
               (2, \<lparr>metadata_address = 16384, size_bytes = 20\<rparr>)],
      total_size = 80\<rparr>
   = LargePagePoolImpl_ComputeTotalSize
     \<lparr>pages = [(1, \<lparr>metadata_address = 4096, size_bytes = 30\<rparr>),
               (1, \<lparr>metadata_address = 8192, size_bytes = 10\<rparr>),
               (2, \<lparr>metadata_address = 12288, size_bytes = 20\<rparr>),
               (2, \<lparr>metadata_address = 16384, size_bytes = 20\<rparr>)],
      total_size = 80\<rparr> \<and>
   (\<exists>page s'. LargePagePoolImpl_Remove True 15
     \<lparr>pages = [(1, \<lparr>metadata_address = 4096, size_bytes = 30\<rparr>),
               (1, \<lparr>metadata_address = 8192, size_bytes = 10\<rparr>),
               (2, \<lparr>metadata_address = 12288, size_bytes = 20\<rparr>),
               (2, \<lparr>metadata_address = 16384, size_bytes = 20\<rparr>)],
      total_size = 80\<rparr> = Inr (Some page, s') \<and> size_bytes page = 20) \<and>
   LargePagePoolImpl_Remove True 35
     \<lparr>pages = [(1, \<lparr>metadata_address = 4096, size_bytes = 30\<rparr>),
               (1, \<lparr>metadata_address = 8192, size_bytes = 10\<rparr>),
               (2, \<lparr>metadata_address = 12288, size_bytes = 20\<rparr>),
               (2, \<lparr>metadata_address = 16384, size_bytes = 20\<rparr>)],
      total_size = 80\<rparr>
   = Inr (None,
     \<lparr>pages = [(1, \<lparr>metadata_address = 4096, size_bytes = 30\<rparr>),
               (1, \<lparr>metadata_address = 8192, size_bytes = 10\<rparr>),
               (2, \<lparr>metadata_address = 12288, size_bytes = 20\<rparr>),
               (2, \<lparr>metadata_address = 16384, size_bytes = 20\<rparr>)],
      total_size = 80\<rparr>) \<and>
   LargePagePoolImpl_Remove True 15
     \<lparr>pages = [(1, \<lparr>metadata_address = 4096, size_bytes = 30\<rparr>),
               (1, \<lparr>metadata_address = 8192, size_bytes = 10\<rparr>),
               (2, \<lparr>metadata_address = 12288, size_bytes = 20\<rparr>),
               (2, \<lparr>metadata_address = 16384, size_bytes = 20\<rparr>)],
      total_size = 80\<rparr>
   = Inr (Some \<lparr>metadata_address = 12288, size_bytes = 20\<rparr>,
     \<lparr>pages = [(1, \<lparr>metadata_address = 4096, size_bytes = 30\<rparr>),
               (1, \<lparr>metadata_address = 8192, size_bytes = 10\<rparr>),
               (2, \<lparr>metadata_address = 16384, size_bytes = 20\<rparr>)],
      total_size = 60\<rparr>)"
proof -
  let ?s = "\<lparr>pages = [(1, \<lparr>metadata_address = 4096, size_bytes = 30\<rparr>),
               (1, \<lparr>metadata_address = 8192, size_bytes = 10\<rparr>),
               (2, \<lparr>metadata_address = 12288, size_bytes = 20\<rparr>),
               (2, \<lparr>metadata_address = 16384, size_bytes = 20\<rparr>)],
             total_size = 80\<rparr>"
  have inv: "total_size ?s = LargePagePoolImpl_ComputeTotalSize ?s"
    by (simp add: LargePagePoolImpl_ComputeTotalSize_def)
  have sizes: "(\<lambda>entry. size_bytes (snd entry)) ` set (pages ?s) = {10, 20, 30}"
    by auto
  have r: "LargePagePoolImpl_Remove True 15 ?s
     = Inr (Some \<lparr>metadata_address = 12288, size_bytes = 20\<rparr>,
       \<lparr>pages = [(1, \<lparr>metadata_address = 4096, size_bytes = 30\<rparr>),
               (1, \<lparr>metadata_address = 8192, size_bytes = 10\<rparr>),
               (2, \<lparr>metadata_address = 16384, size_bytes = 20\<rparr>)],
        total_size = 60\<rparr>)"
    by (simp add: LargePagePoolImpl_Remove_def LargePagePoolImpl_ComputeTotalSize_def DCHECK_def)
  from LargePagePoolImpl_Remove_best_fit [OF inv, of 15 True] sizes inv r show ?thesis
    by blast
qed

subsection \<open>Release on tear-down\<close>

lemma MoveLocalToShared_migrated:
  assumes "fmlookup (local_pools p) isolate \<noteq> Some []"
  shows "PoolImpl_MoveLocalToShared debug isolate time p
           = Inr (shared_pool (migrated isolate time p) \<noteq> [], migrated isolate time p)"
  using assms
  by (cases "fmlookup (local_pools p) isolate")
     (simp_all add: PoolImpl_MoveLocalToShared_def migrated_def DCHECK_def)

lemma PagePool_ReleaseOnTearDown_no_peer:
  assumes p: "fmlookup (local_pools (page_pool s)) isolate \<noteq> Some []"
    and z: "fmlookup (local_pools (zone_pool s)) isolate \<noteq> Some []"
  shows "PagePool_ReleaseOnTearDown debug True None isolate s =
     Inr (\<lparr>released_pages =
             concat (map snd (shared_pool (migrated isolate (next_time s) (page_pool s)))),
           released_zone_reservations =
             concat (map snd (shared_pool (migrated isolate (next_time s) (zone_pool s)))),
           released_large_pages = map snd (pages (large_pool s)),
           posted_task = None\<rparr>,
          s\<lparr>next_time := next_time s + 1,
            page_pool := (migrated isolate (next_time s) (page_pool s))\<lparr>shared_pool := []\<rparr>,
            zone_pool := (migrated isolate (next_time s) (zone_pool s))\<lparr>shared_pool := []\<rparr>,
            large_pool := (large_pool s)\<lparr>pages := [], total_size := 0\<rparr>\<rparr>)"
  by (simp add: PagePool_ReleaseOnTearDown_def Let_def
      MoveLocalToShared_migrated [OF p] MoveLocalToShared_migrated [OF z]
      PoolImpl_ReleaseShared_def LargePagePoolImpl_ReleaseAll_def)

lemma PagePool_ReleaseOnTearDown_peer:
  assumes p: "fmlookup (local_pools (page_pool s)) isolate \<noteq> Some []"
    and z: "fmlookup (local_pools (zone_pool s)) isolate \<noteq> Some []"
    and t: "target_isolate \<noteq> isolate"
  shows "PagePool_ReleaseOnTearDown debug True (Some target_isolate) isolate s =
     Inr (\<lparr>released_pages = [],
           released_zone_reservations = [],
           released_large_pages = map snd (pages (large_pool s)),
           posted_task =
             (if shared_pool (migrated isolate (next_time s) (page_pool s)) \<noteq> [] \<or>
                 shared_pool (migrated isolate (next_time s) (zone_pool s)) \<noteq> []
              then Some (target_isolate, next_time s) else None)\<rparr>,
          s\<lparr>next_time := next_time s + 1,
            page_pool := migrated isolate (next_time s) (page_pool s),
            zone_pool := migrated isolate (next_time s) (zone_pool s),
            large_pool := (large_pool s)\<lparr>pages := [], total_size := 0\<rparr>\<rparr>)"
  using t
  by (simp add: PagePool_ReleaseOnTearDown_def Let_def
      MoveLocalToShared_migrated [OF p] MoveLocalToShared_migrated [OF z]
      LargePagePoolImpl_ReleaseAll_def DCHECK_def)

lemma PagePool_Add_ok:
  assumes "debug \<longrightarrow> Add_preconditions kPageSize isolate chunk"
  shows "PagePool_Add debug kPageSize isolate chunk s
           = Inr (s\<lparr>page_pool := PoolImpl_PutLocal isolate chunk (page_pool s)\<rparr>)"
  using assms by (auto simp: PagePool_Add_def Add_preconditions_def DCHECK_def)

lemma PoolImpl_Size_empty:
  "PoolImpl_Size \<lparr>local_pools = fmempty, shared_pool = []\<rparr> = 0"
  by (simp add: PoolImpl_Size_def sorted_list_of_fmap_def sorted_list_of_fset.rep_eq)

lemma PutLocal_three_fresh:
  "PoolImpl_PutLocal isolate c (PoolImpl_PutLocal isolate b (PoolImpl_PutLocal isolate a
       \<lparr>local_pools = fmempty, shared_pool = []\<rparr>))
     = \<lparr>local_pools = fmupd isolate [a, b, c] fmempty, shared_pool = []\<rparr>"
  by (simp add: PoolImpl_PutLocal_def)

lemma migrated_only_owner:
  "migrated isolate time \<lparr>local_pools = fmupd isolate entries fmempty, shared_pool = []\<rparr>
     = \<lparr>local_pools = fmempty, shared_pool = [(time, entries)]\<rparr>"
  by (simp add: migrated_def fmdrop_fmupd_absent)

lemma teardown_after_three_pages:
  assumes fresh: "local_pools (page_pool s) = fmempty" "shared_pool (page_pool s) = []"
    and z: "fmlookup (local_pools (zone_pool s)) isolate \<noteq> Some []"
    and pre: "debug \<longrightarrow> Add_preconditions kPageSize isolate a \<and>
                Add_preconditions kPageSize isolate b \<and> Add_preconditions kPageSize isolate c"
  shows "\<exists>s1 s2 s3 released s'.
           PagePool_Add debug kPageSize isolate a s = Inr s1 \<and>
           PagePool_Add debug kPageSize isolate b s1 = Inr s2 \<and>
           PagePool_Add debug kPageSize isolate c s2 = Inr s3 \<and>
           PagePool_GetCount isolate s3 = 3 \<and>
           PagePool_ReleaseOnTearDown debug True None isolate s3 = Inr (released, s') \<and>
           released_pages released = [a, b, c] \<and>
           PagePool_GetTotalCount s' = 0"
proof -
  define s1 where "s1 = s\<lparr>page_pool := PoolImpl_PutLocal isolate a (page_pool s)\<rparr>"
  define s2 where "s2 = s1\<lparr>page_pool := PoolImpl_PutLocal isolate b (page_pool s1)\<rparr>"
  define s3 where "s3 = s2\<lparr>page_pool := PoolImpl_PutLocal isolate c (page_pool s2)\<rparr>"
  have a1: "PagePool_Add debug kPageSize isolate a s = Inr s1"
    unfolding s1_def using pre by (intro PagePool_Add_ok) simp
  have a2: "PagePool_Add debug kPageSize isolate b s1 = Inr s2"
    unfolding s2_def using pre by (intro PagePool_Add_ok) simp
  have a3: "PagePool_Add debug kPageSize isolate c s2 = Inr s3"
    unfolding s3_def using pre by (intro PagePool_Add_ok) simp
  have "page_pool s = \<lparr>local_pools = fmempty, shared_pool = []\<rparr>"
    using fresh by simp
  then have pp: "page_pool s3 = \<lparr>local_pools = fmupd isolate [a, b, c] fmempty, shared_pool = []\<rparr>"
    by (simp add: s3_def s2_def s1_def PutLocal_three_fresh)
  have zp: "zone_pool s3 = zone_pool s"
    by (simp add: s3_def s2_def s1_def)
  have cnt: "PagePool_GetCount isolate s3 = 3"
    by (simp add: PagePool_GetCount_def PoolImpl_LocalSize_def pp)
  have p3: "fmlookup (local_pools (page_pool s3)) isolate \<noteq> Some []"
    by (simp add: pp)
  have z3: "fmlookup (local_pools (zone_pool s3)) isolate \<noteq> Some []"
    using z by (simp add: zp)
  note td = PagePool_ReleaseOnTearDown_no_peer [OF p3 z3, of debug]
  let ?released = "\<lparr>released_pages =
             concat (map snd (shared_pool (migrated isolate (next_time s3) (page_pool s3)))),
           released_zone_reservations =
             concat (map snd (shared_pool (migrated isolate (next_time s3) (zone_pool s3)))),
           released_large_pages = map snd (pages (large_pool s3)),
           posted_task = None\<rparr>"
  let ?s' = "s3\<lparr>next_time := next_time s3 + 1,
            page_pool := (migrated isolate (next_time s3) (page_pool s3))\<lparr>shared_pool := []\<rparr>,
            zone_pool := (migrated isolate (next_time s3) (zone_pool s3))\<lparr>shared_pool := []\<rparr>,
            large_pool := (large_pool s3)\<lparr>pages := [], total_size := 0\<rparr>\<rparr>"
  have r: "released_pages ?released = [a, b, c]"
    by (simp add: pp migrated_only_owner)
  have t: "PagePool_GetTotalCount ?s' = 0"
    by (simp add: PagePool_GetTotalCount_def pp migrated_only_owner PoolImpl_Size_empty)
  from a1 a2 a3 cnt td r t show ?thesis
    by blast
qed

text \<open>
  Claim C8. With sharing on tear-down enabled, for an isolate whose local vectors are
  not empty (the invariant of both pools), \<open>ReleaseOnTearDown\<close> takes the time
  \<open>T = next_time_\<close>, advances the clock and migrates the isolate's local pages and
  zone reservations into the shared pools as batches tagged \<open>T\<close>. When no other
  isolate is found, both shared pools are released before the call returns: they are
  empty afterwards and their entries, the migrated ones included, are destroyed. When
  another isolate is found, the batches stay and a task for time \<open>T\<close> is posted on it
  if a shared pool is not empty. The large pages are released in every case. In
  particular, three pages admitted by an isolate to a fresh pool are all released by its
  tear-down without a peer, and the total count is 0 afterwards.
\<close>

theorem PagePool_ReleaseOnTearDown_sharing:
  assumes p: "fmlookup (local_pools (page_pool s)) isolate \<noteq> Some []"
    and z: "fmlookup (local_pools (zone_pool s)) isolate \<noteq> Some []"
  shows
   "PagePool_ReleaseOnTearDown debug True None isolate s =
      Inr (\<lparr>released_pages =
              concat (map snd (shared_pool (migrated isolate (next_time s) (page_pool s)))),
            released_zone_reservations =
              concat (map snd (shared_pool (migrated isolate (next_time s) (zone_pool s)))),
            released_large_pages = map snd (pages (large_pool s)),
            posted_task = None\<rparr>,
           s\<lparr>next_time := next_time s + 1,
             page_pool := (migrated isolate (next_time s) (page_pool s))\<lparr>shared_pool := []\<rparr>,
             zone_pool := (migrated isolate (next_time s) (zone_pool s))\<lparr>shared_pool := []\<rparr>,
             large_pool := (large_pool s)\<lparr>pages := [], total_size := 0\<rparr>\<rparr>) \<and>
    (\<forall>target_isolate. target_isolate \<noteq> isolate \<longrightarrow>
       PagePool_ReleaseOnTearDown debug True (Some target_isolate) isolate s =
         Inr (\<lparr>released_pages = [],
               released_zone_reservations = [],
               released_large_pages = map snd (pages (large_pool s)),
               posted_task =
                 (if shared_pool (migrated isolate (next_time s) (page_pool s)) \<noteq> [] \<or>
                     shared_pool (migrated isolate (next_time s) (zone_pool s)) \<noteq> []
                  then Some (target_isolate, next_time s) else None)\<rparr>,
              s\<lparr>next_time := next_time s + 1,
                page_pool := migrated isolate (next_time s) (page_pool s),
                zone_pool := migrated isolate (next_time s) (zone_pool s),
                large_pool := (large_pool s)\<lparr>pages := [], total_size := 0\<rparr>\<rparr>)) \<and>
    (\<forall>kPageSize a b c.
       local_pools (page_pool s) = fmempty \<and> shared_pool (page_pool s) = [] \<and>
       (debug \<longrightarrow> Add_preconditions kPageSize isolate a \<and>
          Add_preconditions kPageSize isolate b \<and> Add_preconditions kPageSize isolate c) \<longrightarrow>
       (\<exists>s1 s2 s3 released s'.
           PagePool_Add debug kPageSize isolate a s = Inr s1 \<and>
           PagePool_Add debug kPageSize isolate b s1 = Inr s2 \<and>
           PagePool_Add debug kPageSize isolate c s2 = Inr s3 \<and>
           PagePool_GetCount isolate s3 = 3 \<and>
           PagePool_ReleaseOnTearDown debug True None isolate s3 = Inr (released, s') \<and>
           released_pages released = [a, b, c] \<and>
           PagePool_GetTotalCount s' = 0))"
proof (intro conjI allI impI)
  show "PagePool_ReleaseOnTearDown debug True None isolate s =
      Inr (\<lparr>released_pages =
              concat (map snd (shared_pool (migrated isolate (next_time s) (page_pool s)))),
            released_zone_reservations =
              concat (map snd (shared_pool (migrated isolate (next_time s) (zone_pool s)))),
            released_large_pages = map snd (pages (large_pool s)),
            posted_task = None\<rparr>,
           s\<lparr>next_time := next_time s + 1,
             page_pool := (migrated isolate (next_time s) (page_pool s))\<lparr>shared_pool := []\<rparr>,
             zone_pool := (migrated isolate (next_time s) (zone_pool s))\<lparr>shared_pool := []\<rparr>,
             large_pool := (large_pool s)\<lparr>pages := [], total_size := 0\<rparr>\<rparr>)"
    by (rule PagePool_ReleaseOnTearDown_no_peer [OF p z])
next
  fix target_isolate
  assume "target_isolate \<noteq> isolate"
  then show "PagePool_ReleaseOnTearDown debug True (Some target_isolate) isolate s =
         Inr (\<lparr>released_pages = [],
               released_zone_reservations = [],
               released_large_pages = map snd (pages (large_pool s)),
               posted_task =
                 (if shared_pool (migrated isolate (next_time s) (page_pool s)) \<noteq> [] \<or>
                     shared_pool (migrated isolate (next_time s) (zone_pool s)) \<noteq> []
                  then Some (target_isolate, next_time s) else None)\<rparr>,
              s\<lparr>next_time := next_time s + 1,
                page_pool := migrated isolate (next_time s) (page_pool s),
                zone_pool := migrated isolate (next_time s) (zone_pool s),
                large_pool := (large_pool s)\<lparr>pages := [], total_size := 0\<rparr>\<rparr>)"
    by (rule PagePool_ReleaseOnTearDown_peer [OF p z])
next
  fix kPageSize a b c
  assume "local_pools (page_pool s) = fmempty \<and> shared_pool (page_pool s) = [] \<and>
       (debug \<longrightarrow> Add_preconditions kPageSize isolate a \<and>
          Add_preconditions kPageSize isolate b \<and> Add_preconditions kPageSize isolate c)"
  then show "\<exists>s1 s2 s3 released s'.
           PagePool_Add debug kPageSize isolate a s = Inr s1 \<and>
           PagePool_Add debug kPageSize isolate b s1 = Inr s2 \<and>
           PagePool_Add debug kPageSize isolate c s2 = Inr s3 \<and>
           PagePool_GetCount isolate s3 = 3 \<and>
           PagePool_ReleaseOnTearDown debug True None isolate s3 = Inr (released, s') \<and>
           released_pages released = [a, b, c] \<and>
           PagePool_GetTotalCount s' = 0"
    using teardown_after_three_pages [OF _ _ z, of debug kPageSize a b c] by blast
qed

theorem PagePool_ReleaseOnTearDown_sharing_witness:
  "fmlookup (local_pools (page_pool
      \<lparr>page_pool = \<lparr>local_pools = fmupd 1 [ordinary_page 4096 262144]
                                     (fmupd 2 [ordinary_page 8192 262144] fmempty),
                    shared_pool = [(3, [ordinary_page 12288 262144])]\<rparr>,
       zone_pool = \<lparr>local_pools = fmupd 1 [70::int] fmempty, shared_pool = []\<rparr>,
       large_pool = \<lparr>pages = [(4, \<lparr>metadata_address = 16384, size_bytes = 500\<rparr>)],
                     total_size = 500\<rparr>,
       next_time = 5\<rparr>)) 1 \<noteq> Some [] \<and>
   PagePool_ReleaseOnTearDown True True None 1
      \<lparr>page_pool = \<lparr>local_pools = fmupd 1 [ordinary_page 4096 262144]
                                     (fmupd 2 [ordinary_page 8192 262144] fmempty),
                    shared_pool = [(3, [ordinary_page 12288 262144])]\<rparr>,
       zone_pool = \<lparr>local_pools = fmupd 1 [70::int] fmempty, shared_pool = []\<rparr>,
       large_pool = \<lparr>pages = [(4, \<lparr>metadata_address = 16384, size_bytes = 500\<rparr>)],
                     total_size = 500\<rparr>,
       next_time = 5\<rparr>
   = Inr (\<lparr>released_pages = [ordinary_page 12288 262144, ordinary_page 4096 262144],
           released_zone_reservations = [70],
           released_large_pages = [\<lparr>metadata_address = 16384, size_bytes = 500\<rparr>],
           posted_task = None\<rparr>,
          \<lparr>page_pool = \<lparr>local_pools = fmupd 2 [ordinary_page 8192 262144] fmempty,
                        shared_pool = []\<rparr>,
           zone_pool = \<lparr>local_pools = fmempty, shared_pool = []\<rparr>,
           large_pool = \<lparr>pages = [], total_size = 0\<rparr>,
           next_time = 6\<rparr>) \<and>
   PagePool_ReleaseOnTearDown True True (Some 2) 1
      \<lparr>page_pool = \<lparr>local_pools = fmupd 1 [ordinary_page 4096 262144]
                                     (fmupd 2 [ordinary_page 8192 262144] fmempty),
                    shared_pool = [(3, [ordinary_page 12288 262144])]\<rparr>,
       zone_pool = \<lparr>local_pools = fmupd 1 [70::int] fmempty, shared_pool = []\<rparr>,
       large_pool = \<lparr>pages = [(4, \<lparr>metadata_address = 16384, size_bytes = 500\<rparr>)],
                     total_size = 500\<rparr>,
       next_time = 5\<rparr>
   = Inr (\<lparr>released_pages = [],
           released_zone_reservations = [],
           released_large_pages = [\<lparr>metadata_address = 16384, size_bytes = 500\<rparr>],
           posted_task = Some (2, 5)\<rparr>,
          \<lparr>page_pool = \<lparr>local_pools = fmupd 2 [ordinary_page 8192 262144] fmempty,
                        shared_pool = [(3, [ordinary_page 12288 262144]),
                                       (5, [ordinary_page 4096 262144])]\<rparr>,
           zone_pool = \<lparr>local_pools = fmempty, shared_pool = [(5, [70])]\<rparr>,
           large_pool = \<lparr>pages = [], total_size = 0\<rparr>,
           next_time = 6\<rparr>) \<and>
   (\<exists>s1 s2 s3 released s'.
       PagePool_Add True 262144 1 (ordinary_page 4096 262144)
         \<lparr>page_pool = \<lparr>local_pools = fmempty, shared_pool = []\<rparr>,
          zone_pool = \<lparr>local_pools = fmempty, shared_pool = ([] :: (InternalTime \<times> int list) list)\<rparr>,
          large_pool = \<lparr>pages = [], total_size = 0\<rparr>,
          next_time = 1\<rparr> = Inr s1 \<and>
       PagePool_Add True 262144 1 (ordinary_page 8192 262144) s1 = Inr s2 \<and>
       PagePool_Add True 262144 1 (ordinary_page 12288 262144) s2 = Inr s3 \<and>
       PagePool_GetCount 1 s3 = 3 \<and>
       PagePool_ReleaseOnTearDown True True None 1 s3 = Inr (released, s') \<and>
       released_pages released
         = [ordinary_page 4096 262144, ordinary_page 8192 262144, ordinary_page 12288 262144] \<and>
       PagePool_GetTotalCount s' = 0)"
proof -
  let ?s = "\<lparr>page_pool = \<lparr>local_pools = fmupd 1 [ordinary_page 4096 262144]
                                     (fmupd 2 [ordinary_page 8192 262144] fmempty),
                    shared_pool = [(3, [ordinary_page 12288 262144])]\<rparr>,
       zone_pool = \<lparr>local_pools = fmupd 1 [70::int] fmempty, shared_pool = []\<rparr>,
       large_pool = \<lparr>pages = [(4, \<lparr>metadata_address = 16384, size_bytes = 500\<rparr>)],
                     total_size = 500\<rparr>,
       next_time = 5\<rparr>"
  let ?fresh = "\<lparr>page_pool = \<lparr>local_pools = fmempty, shared_pool = []\<rparr>,
          zone_pool = \<lparr>local_pools = fmempty, shared_pool = ([] :: (InternalTime \<times> int list) list)\<rparr>,
          large_pool = \<lparr>pages = [], total_size = 0\<rparr>,
          next_time = 1\<rparr>"
  have p: "fmlookup (local_pools (page_pool ?s)) 1 \<noteq> Some []"
    and z: "fmlookup (local_pools (zone_pool ?s)) 1 \<noteq> Some []"
    by simp_all
  have pf: "fmlookup (local_pools (page_pool ?fresh)) 1 \<noteq> Some []"
    and zf: "fmlookup (local_pools (zone_pool ?fresh)) 1 \<noteq> Some []"
    by simp_all
  note t = PagePool_ReleaseOnTearDown_sharing [OF p z, of True]
  have w1: "PagePool_ReleaseOnTearDown True True None 1 ?s
   = Inr (\<lparr>released_pages = [ordinary_page 12288 262144, ordinary_page 4096 262144],
           released_zone_reservations = [70],
           released_large_pages = [\<lparr>metadata_address = 16384, size_bytes = 500\<rparr>],
           posted_task = None\<rparr>,
          \<lparr>page_pool = \<lparr>local_pools = fmupd 2 [ordinary_page 8192 262144] fmempty,
                        shared_pool = []\<rparr>,
           zone_pool = \<lparr>local_pools = fmempty, shared_pool = []\<rparr>,
           large_pool = \<lparr>pages = [], total_size = 0\<rparr>,
           next_time = 6\<rparr>)"
    using t by (simp add: migrated_def fmdrop_fmupd)
  have "(2::nat) \<noteq> 1" by simp
  with t have "PagePool_ReleaseOnTearDown True True (Some 2) 1 ?s =
         Inr (\<lparr>released_pages = [],
               released_zone_reservations = [],
               released_large_pages = map snd (pages (large_pool ?s)),
               posted_task =
                 (if shared_pool (migrated 1 (next_time ?s) (page_pool ?s)) \<noteq> [] \<or>
                     shared_pool (migrated 1 (next_time ?s) (zone_pool ?s)) \<noteq> []
                  then Some (2, next_time ?s) else None)\<rparr>,
              ?s\<lparr>next_time := next_time ?s + 1,
                page_pool := migrated 1 (next_time ?s) (page_pool ?s),
                zone_pool := migrated 1 (next_time ?s) (zone_pool ?s),
                large_pool := (large_pool ?s)\<lparr>pages := [], total_size := 0\<rparr>\<rparr>)"
    by blast
  then have w2: "PagePool_ReleaseOnTearDown True True (Some 2) 1 ?s
   = Inr (\<lparr>released_pages = [],
           released_zone_reservations = [],
           released_large_pages = [\<lparr>metadata_address = 16384, size_bytes = 500\<rparr>],
           posted_task = Some (2, 5)\<rparr>,
          \<lparr>page_pool = \<lparr>local_pools = fmupd 2 [ordinary_page 8192 262144] fmempty,
                        shared_pool = [(3, [ordinary_page 12288 262144]),
                                       (5, [ordinary_page 4096 262144])]\<rparr>,
           zone_pool = \<lparr>local_pools = fmempty, shared_pool = [(5, [70])]\<rparr>,
           large_pool = \<lparr>pages = [], total_size = 0\<rparr>,
           next_time = 6\<rparr>)"
    by (simp add: migrated_def fmdrop_fmupd)
  have "local_pools (page_pool ?fresh) = fmempty \<and> shared_pool (page_pool ?fresh) = [] \<and>
       (True \<longrightarrow> Add_preconditions 262144 1 (ordinary_page 4096 262144) \<and>
          Add_preconditions 262144 1 (ordinary_page 8192 262144) \<and>
          Add_preconditions 262144 1 (ordinary_page 12288 262144))"
    by (simp add: Add_preconditions_def ordinary_page_def nullptr_def)
  with PagePool_ReleaseOnTearDown_sharing [OF pf zf, of True]
  have w3: "\<exists>s1 s2 s3 released s'.
       PagePool_Add True 262144 1 (ordinary_page 4096 262144) ?fresh = Inr s1 \<and>
       PagePool_Add True 262144 1 (ordinary_page 8192 262144) s1 = Inr s2 \<and>
       PagePool_Add True 262144 1 (ordinary_page 12288 262144) s2 = Inr s3 \<and>
       PagePool_GetCount 1 s3 = 3 \<and>
       PagePool_ReleaseOnTearDown True True None 1 s3 = Inr (released, s') \<and>
       released_pages released
         = [ordinary_page 4096 262144, ordinary_page 8192 262144, ordinary_page 12288 262144] \<and>
       PagePool_GetTotalCount s' = 0"
    by blast
  from p w1 w2 w3 show ?thesis
    by (intro conjI)
qed

subsection \<open>The aggregate of the large page pool\<close>

lemma erase_if_Add:
  assumes "erase_if
             (\<lambda>page (this, added_to_pool).
                if total_size this + size_bytes page > max_total_size
                then (False, (this, added_to_pool))
                else (True,
                      (this\<lparr>total_size := total_size this + size_bytes page,
                             pages := pages this @ [(time, page)]\<rparr>,
                       True)))
             candidates (s, added) = (rest, (s', added'))"
  shows "\<exists>admitted.
           s' = s\<lparr>total_size := total_size s + sum_list (map size_bytes admitted),
                  pages := pages s @ map (Pair time) admitted\<rparr> \<and>
           mset candidates = mset rest + mset admitted \<and>
           subseq rest candidates \<and> subseq admitted candidates \<and>
           added' = (added \<or> admitted \<noteq> []) \<and>
           (admitted \<noteq> [] \<longrightarrow> total_size s' \<le> max_total_size)"
  using assms
proof (induction candidates arbitrary: s added rest s' added')
  case Nil
  then have "s' = s" "rest = []" "added' = added" by simp_all
  then show ?case by (intro exI [of _ "[]"]) simp
next
  case (Cons page candidates)
  show ?case
  proof (cases "total_size s + size_bytes page > max_total_size")
    case True
    obtain ys st where e: "erase_if
             (\<lambda>page (this, added_to_pool).
                if total_size this + size_bytes page > max_total_size
                then (False, (this, added_to_pool))
                else (True,
                      (this\<lparr>total_size := total_size this + size_bytes page,
                             pages := pages this @ [(time, page)]\<rparr>,
                       True)))
             candidates (s, added) = (ys, st)"
      by (cases "erase_if
             (\<lambda>page (this, added_to_pool).
                if total_size this + size_bytes page > max_total_size
                then (False, (this, added_to_pool))
                else (True,
                      (this\<lparr>total_size := total_size this + size_bytes page,
                             pages := pages this @ [(time, page)]\<rparr>,
                       True)))
             candidates (s, added)") auto
    with Cons.prems True have r: "rest = page # ys" and st: "st = (s', added')"
      by simp_all
    from Cons.IH [OF e [unfolded st]] obtain admitted where
      a: "s' = s\<lparr>total_size := total_size s + sum_list (map size_bytes admitted),
                  pages := pages s @ map (Pair time) admitted\<rparr>"
        "mset candidates = mset ys + mset admitted"
        "subseq ys candidates" "subseq admitted candidates"
        "added' = (added \<or> admitted \<noteq> [])"
        "admitted \<noteq> [] \<longrightarrow> total_size s' \<le> max_total_size"
      by blast
    show ?thesis
      using a r by (intro exI [of _ admitted]) (simp add: list_emb_Cons)
  next
    case False
    let ?s1 = "s\<lparr>total_size := total_size s + size_bytes page,
                   pages := pages s @ [(time, page)]\<rparr>"
    from Cons.prems False have e: "erase_if
             (\<lambda>page (this, added_to_pool).
                if total_size this + size_bytes page > max_total_size
                then (False, (this, added_to_pool))
                else (True,
                      (this\<lparr>total_size := total_size this + size_bytes page,
                             pages := pages this @ [(time, page)]\<rparr>,
                       True)))
             candidates (?s1, True) = (rest, (s', added'))"
      by simp
    from Cons.IH [OF e] obtain admitted where
      a: "s' = ?s1\<lparr>total_size := total_size ?s1 + sum_list (map size_bytes admitted),
                  pages := pages ?s1 @ map (Pair time) admitted\<rparr>"
        "mset candidates = mset rest + mset admitted"
        "subseq rest candidates" "subseq admitted candidates"
        "added' = (True \<or> admitted \<noteq> [])"
        "admitted \<noteq> [] \<longrightarrow> total_size s' \<le> max_total_size"
      by blast
    have s': "s' = s\<lparr>total_size := total_size s + sum_list (map size_bytes (page # admitted)),
                  pages := pages s @ map (Pair time) (page # admitted)\<rparr>"
      using a(1) by (simp add: add.assoc)
    have le: "total_size s' \<le> max_total_size"
    proof (cases "admitted = []")
      case True
      with a(1) have "total_size s' = total_size s + size_bytes page" by simp
      with False show ?thesis by simp
    next
      case False
      with a(6) show ?thesis by simp
    qed
    show ?thesis
      using s' a(2-5) le by (intro exI [of _ "page # admitted"]) (simp add: list_emb_Cons)
  qed
qed

lemma LargePagePoolImpl_Add_result:
  assumes inv: "total_size s = LargePagePoolImpl_ComputeTotalSize s"
  shows "\<exists>admitted rest s'.
           LargePagePoolImpl_Add debug max_total_size candidates time s
             = Inr (admitted \<noteq> [], rest, s') \<and>
           s' = s\<lparr>total_size := total_size s + sum_list (map size_bytes admitted),
                  pages := pages s @ map (Pair time) admitted\<rparr> \<and>
           total_size s' = LargePagePoolImpl_ComputeTotalSize s' \<and>
           (total_size s \<le> max_total_size \<longrightarrow> total_size s' \<le> max_total_size) \<and>
           mset candidates = mset rest + mset admitted \<and>
           subseq rest candidates \<and> subseq admitted candidates"
proof -
  let ?pred = "\<lambda>page (this, added_to_pool).
                if total_size this + size_bytes page > max_total_size
                then (False, (this, added_to_pool))
                else (True,
                      (this\<lparr>total_size := total_size this + size_bytes page,
                             pages := pages this @ [(time, page)]\<rparr>,
                       True))"
  obtain rest s' added' where e: "erase_if ?pred candidates (s, False) = (rest, (s', added'))"
    by (cases "erase_if ?pred candidates (s, False)") auto
  from erase_if_Add [OF e] obtain admitted where
    a: "s' = s\<lparr>total_size := total_size s + sum_list (map size_bytes admitted),
                  pages := pages s @ map (Pair time) admitted\<rparr>"
       "mset candidates = mset rest + mset admitted"
       "subseq rest candidates" "subseq admitted candidates"
       "added' = (False \<or> admitted \<noteq> [])"
       "admitted \<noteq> [] \<longrightarrow> total_size s' \<le> max_total_size"
    by blast
  have "LargePagePoolImpl_ComputeTotalSize s'
          = LargePagePoolImpl_ComputeTotalSize s + sum_list (map size_bytes admitted)"
    by (simp add: ComputeTotalSize_sum_list a(1) comp_def)
  with inv have ok: "total_size s' = LargePagePoolImpl_ComputeTotalSize s'"
    by (simp add: a(1))
  have budget: "total_size s \<le> max_total_size \<longrightarrow> total_size s' \<le> max_total_size"
  proof (cases "admitted = []")
    case True
    with a(1) show ?thesis by simp
  next
    case False
    with a(6) show ?thesis by simp
  qed
  have "LargePagePoolImpl_Add debug max_total_size candidates time s
          = Inr (admitted \<noteq> [], rest, s')"
    unfolding LargePagePoolImpl_Add_def e
    using inv ok a(5) by (simp add: DCHECK_def)
  with a(1-4) ok budget show ?thesis
    by blast
qed

lemma LargePagePoolImpl_Add_one:
  assumes inv: "total_size s = LargePagePoolImpl_ComputeTotalSize s"
  shows "LargePagePoolImpl_Add debug max_total_size [page] time s =
           (if max_total_size < total_size s + size_bytes page then Inr (False, [page], s)
            else Inr (True, [],
                      s\<lparr>total_size := total_size s + size_bytes page,
                        pages := pages s @ [(time, page)]\<rparr>))"
  using inv
  by (simp add: LargePagePoolImpl_Add_def DCHECK_def ComputeTotalSize_sum_list)

lemma LargePagePoolImpl_Remove_invariant:
  assumes inv: "total_size s = LargePagePoolImpl_ComputeTotalSize s"
  shows "\<exists>result s'. LargePagePoolImpl_Remove debug chunk_size s = Inr (result, s') \<and>
           total_size s' = LargePagePoolImpl_ComputeTotalSize s'"
proof (cases "Remove_loop chunk_size (pages s) (pages s) 0 None")
  case None
  from LargePagePoolImpl_Remove_none [OF inv None, of debug] inv show ?thesis
    by simp
next
  case (Some i)
  from LargePagePoolImpl_Remove_found [OF inv Some, of debug]
  have bf: "best_fit chunk_size (pages s) i"
    and r: "LargePagePoolImpl_Remove debug chunk_size s =
           Inr (Some (snd (pages s ! i)),
                s\<lparr>total_size := total_size s - size_bytes (snd (pages s ! i)),
                  pages := take i (pages s) @ drop (Suc i) (pages s)\<rparr>)"
    by simp_all
  from bf have i: "i < length (pages s)" by (simp add: best_fit_def)
  let ?s' = "s\<lparr>total_size := total_size s - size_bytes (snd (pages s ! i)),
                pages := take i (pages s) @ drop (Suc i) (pages s)\<rparr>"
  have "LargePagePoolImpl_ComputeTotalSize ?s'
          = LargePagePoolImpl_ComputeTotalSize s - size_bytes (snd (pages s ! i))"
    using sum_list_remove_nth [OF i, of "\<lambda>entry. size_bytes (snd entry)"]
    by (simp add: ComputeTotalSize_sum_list)
  with inv have "total_size ?s' = LargePagePoolImpl_ComputeTotalSize ?s'"
    by simp
  with r show ?thesis by blast
qed

lemma LargePagePoolImpl_ReleaseUpTo_invariant:
  assumes inv: "total_size s = LargePagePoolImpl_ComputeTotalSize s"
  shows "\<exists>freed entries s'. LargePagePoolImpl_ReleaseUpTo debug release_time s
             = Inr (freed, entries, s') \<and>
           total_size s' = LargePagePoolImpl_ComputeTotalSize s'"
  unfolding LargePagePoolImpl_ReleaseUpTo_result [OF inv]
  by (simp add: ComputeTotalSize_sum_list ReleaseUpTo_kept_total [OF inv])

lemma unat_sum_list:
  fixes ws :: "size_t list"
  assumes "sum_list (map unat ws) < 2 ^ 64"
  shows "unat (sum_list ws) = sum_list (map unat ws)"
  using assms
proof (induction ws)
  case Nil
  show ?case by simp
next
  case (Cons w ws)
  then have "sum_list (map unat ws) < 2 ^ 64" by simp
  with Cons.IH have ih: "unat (sum_list ws) = sum_list (map unat ws)" by simp
  with Cons.prems have "unat w + unat (sum_list ws) < 2 ^ LENGTH(64)" by simp
  then have "unat (w + sum_list ws) = unat w + unat (sum_list ws)"
    by (simp only: unat_add_lem)
  with ih show ?case by simp
qed

lemma of_nat_retained_bytes:
  "of_nat (retained_bytes s) = LargePagePoolImpl_ComputeTotalSize s"
proof -
  have "of_nat (sum_list (map (\<lambda>entry. unat (size_bytes (snd entry))) xs))
          = sum_list (map (\<lambda>entry. size_bytes (snd entry)) xs)"
    for xs :: "(InternalTime \<times> LargePageMetadata) list"
    by (induction xs) simp_all
  then show ?thesis
    by (simp add: retained_bytes_def ComputeTotalSize_sum_list)
qed

lemma exact_aggregate_invariant:
  assumes "unat (total_size s) = retained_bytes s"
  shows "total_size s = LargePagePoolImpl_ComputeTotalSize s"
proof -
  have "total_size s = of_nat (unat (total_size s))" by simp
  also have "\<dots> = LargePagePoolImpl_ComputeTotalSize s"
    unfolding assms by (rule of_nat_retained_bytes)
  finally show ?thesis .
qed

lemma sum_list_mset_split:
  fixes f :: "'a \<Rightarrow> nat"
  assumes "mset xs = mset ys + mset zs"
  shows "sum_list (map f xs) = sum_list (map f ys) + sum_list (map f zs)"
proof -
  have "sum_list (map f xs) = sum_mset (image_mset f (mset xs))"
    by (simp add: sum_mset_sum_list [symmetric])
  also have "\<dots> = sum_mset (image_mset f (mset ys)) + sum_mset (image_mset f (mset zs))"
    unfolding assms by simp
  also have "\<dots> = sum_list (map f ys) + sum_list (map f zs)"
    by (simp add: sum_mset_sum_list [symmetric])
  finally show ?thesis .
qed

lemma LargePagePoolImpl_Add_exact:
  assumes exact: "unat (total_size s) = retained_bytes s"
    and fits: "retained_bytes s + sum_list (map (\<lambda>page. unat (size_bytes page)) candidates) < 2 ^ 64"
  shows "\<exists>added rest s'.
           LargePagePoolImpl_Add debug max_total_size candidates time s = Inr (added, rest, s') \<and>
           unat (total_size s') = retained_bytes s' \<and>
           (total_size s \<le> max_total_size \<longrightarrow> retained_bytes s' \<le> unat max_total_size)"
proof -
  from LargePagePoolImpl_Add_result [OF exact_aggregate_invariant [OF exact],
      of debug max_total_size candidates time]
  obtain admitted rest s' where
    r: "LargePagePoolImpl_Add debug max_total_size candidates time s
          = Inr (admitted \<noteq> [], rest, s')"
    and s': "s' = s\<lparr>total_size := total_size s + sum_list (map size_bytes admitted),
                    pages := pages s @ map (Pair time) admitted\<rparr>"
    and budget: "total_size s \<le> max_total_size \<longrightarrow> total_size s' \<le> max_total_size"
    and split: "mset candidates = mset rest + mset admitted"
    by blast
  let ?u = "\<lambda>page. unat (size_bytes page)"
  have "sum_list (map ?u candidates) = sum_list (map ?u rest) + sum_list (map ?u admitted)"
    using split by (rule sum_list_mset_split)
  with fits have small: "retained_bytes s + sum_list (map ?u admitted) < 2 ^ 64"
    by simp
  then have "sum_list (map unat (map size_bytes admitted)) < 2 ^ 64"
    by (simp add: comp_def)
  then have u: "unat (sum_list (map size_bytes admitted)) = sum_list (map ?u admitted)"
    by (simp add: unat_sum_list comp_def)
  from small exact u
  have "unat (total_size s) + unat (sum_list (map size_bytes admitted)) < 2 ^ LENGTH(64)"
    by simp
  then have "unat (total_size s + sum_list (map size_bytes admitted))
               = unat (total_size s) + unat (sum_list (map size_bytes admitted))"
    by (simp only: unat_add_lem)
  with exact u have t: "unat (total_size s') = retained_bytes s + sum_list (map ?u admitted)"
    by (simp add: s')
  have rb: "retained_bytes s' = retained_bytes s + sum_list (map ?u admitted)"
    by (simp add: retained_bytes_def s' comp_def)
  from t rb have e: "unat (total_size s') = retained_bytes s'" by simp
  from budget e have "total_size s \<le> max_total_size \<longrightarrow> retained_bytes s' \<le> unat max_total_size"
    by (simp add: word_le_nat_alt)
  with r e show ?thesis by blast
qed

lemma sum_list_nat_remove_nth:
  fixes f :: "'a \<Rightarrow> nat"
  assumes "i < length xs"
  shows "sum_list (map f xs) = sum_list (map f (take i xs @ drop (Suc i) xs)) + f (xs ! i)"
proof -
  have "sum_list (map f xs) = sum_list (map f (take i xs @ xs ! i # drop (Suc i) xs))"
    using assms by (simp only: id_take_nth_drop [symmetric])
  then show ?thesis by simp
qed

lemma sum_list_nat_partition:
  fixes f :: "InternalTime \<times> 'a \<Rightarrow> nat"
  shows "sum_list (map f entries)
     = sum_list (map f (filter (\<lambda>entry. fst entry \<le> t) entries))
     + sum_list (map f (filter (\<lambda>entry. t < fst entry) entries))"
proof (induction entries)
  case Nil
  show ?case by simp
next
  case (Cons e es)
  show ?case
  proof (cases "fst e \<le> t")
    case True
    then have "\<not> t < fst e" by simp
    with True Cons show ?thesis by simp
  next
    case False
    then have "t < fst e" by simp
    with False Cons show ?thesis by simp
  qed
qed

lemma LargePagePoolImpl_Remove_exact:
  assumes exact: "unat (total_size s) = retained_bytes s"
  shows "\<exists>result s'. LargePagePoolImpl_Remove debug chunk_size s = Inr (result, s') \<and>
           unat (total_size s') = retained_bytes s'"
proof (cases "Remove_loop chunk_size (pages s) (pages s) 0 None")
  case None
  from LargePagePoolImpl_Remove_none [OF exact_aggregate_invariant [OF exact] None, of debug]
    exact show ?thesis by simp
next
  case (Some i)
  from LargePagePoolImpl_Remove_found [OF exact_aggregate_invariant [OF exact] Some, of debug]
  have bf: "best_fit chunk_size (pages s) i"
    and r: "LargePagePoolImpl_Remove debug chunk_size s =
           Inr (Some (snd (pages s ! i)),
                s\<lparr>total_size := total_size s - size_bytes (snd (pages s ! i)),
                  pages := take i (pages s) @ drop (Suc i) (pages s)\<rparr>)"
    by simp_all
  from bf have i: "i < length (pages s)" by (simp add: best_fit_def)
  let ?s' = "s\<lparr>total_size := total_size s - size_bytes (snd (pages s ! i)),
                pages := take i (pages s) @ drop (Suc i) (pages s)\<rparr>"
  have rb: "retained_bytes s = retained_bytes ?s' + unat (size_bytes (snd (pages s ! i)))"
    using sum_list_nat_remove_nth [OF i, of "\<lambda>entry. unat (size_bytes (snd entry))"]
    by (simp add: retained_bytes_def)
  with exact have "unat (size_bytes (snd (pages s ! i))) \<le> unat (total_size s)"
    by simp
  then have "size_bytes (snd (pages s ! i)) \<le> total_size s"
    by (simp add: word_le_nat_alt)
  then have "unat (total_size s - size_bytes (snd (pages s ! i)))
               = unat (total_size s) - unat (size_bytes (snd (pages s ! i)))"
    by (rule unat_sub)
  with exact rb have "unat (total_size ?s') = retained_bytes ?s'"
    by simp
  with r show ?thesis by blast
qed

lemma LargePagePoolImpl_ReleaseUpTo_exact:
  assumes exact: "unat (total_size s) = retained_bytes s"
  shows "\<exists>freed entries s'. LargePagePoolImpl_ReleaseUpTo debug release_time s
             = Inr (freed, entries, s') \<and>
           unat (total_size s') = retained_bytes s'"
proof -
  let ?u = "\<lambda>entry :: InternalTime \<times> LargePageMetadata. unat (size_bytes (snd entry))"
  let ?gone = "filter (\<lambda>entry. fst entry \<le> release_time) (pages s)"
  let ?kept = "filter (\<lambda>entry. release_time < fst entry) (pages s)"
  let ?w = "sum_list (map (\<lambda>entry. size_bytes (snd entry)) ?gone)"
  let ?s' = "s\<lparr>pages := ?kept, total_size := total_size s - ?w\<rparr>"
  have part: "retained_bytes s = sum_list (map ?u ?gone) + sum_list (map ?u ?kept)"
    unfolding retained_bytes_def by (rule sum_list_nat_partition)
  have "unat (total_size s) < 2 ^ 64"
    using unsigned_less [of "total_size s"] by simp
  with exact part have "sum_list (map unat (map (\<lambda>entry. size_bytes (snd entry)) ?gone)) < 2 ^ 64"
    by (simp add: comp_def)
  then have u: "unat ?w = sum_list (map ?u ?gone)"
    by (simp add: unat_sum_list comp_def)
  with exact part have "unat ?w \<le> unat (total_size s)"
    by simp
  then have "?w \<le> total_size s"
    by (simp add: word_le_nat_alt)
  then have "unat (total_size s - ?w) = unat (total_size s) - unat ?w"
    by (rule unat_sub)
  with exact part u have "unat (total_size ?s') = retained_bytes ?s'"
    by (simp add: retained_bytes_def)
  with LargePagePoolImpl_ReleaseUpTo_result [OF exact_aggregate_invariant [OF exact],
      of debug release_time]
  show ?thesis by blast
qed

text \<open>
  Claim C5. From a state of the large page pool whose aggregate \<open>total_size_\<close> is the
  total that \<open>ComputeTotalSize\<close> computes, \<open>Add\<close>, \<open>Remove\<close>, \<open>ReleaseAll\<close>
  and \<open>ReleaseUpTo\<close> return normally in a state of the same kind. \<open>Add\<close> keeps an
  aggregate that is within \<open>max_total_size\<close> within it; the candidates split, in
  order, into the admitted ones, appended to the pool with the given time, and the
  rejected ones, which stay in the caller's vector; a single candidate is admitted
  exactly when the aggregate plus its size does not exceed \<open>max_total_size\<close>. These
  sums and comparisons are those of \<open>size_t\<close>. The last part is about the sum
  without wrap-around: when the aggregate is the number of bytes retained, it still is
  after each operation, and \<open>Add\<close> keeps that number within \<open>max_total_size\<close>,
  provided the bytes retained and offered are fewer than \<open>2 ^ 64\<close>.
\<close>

theorem LargePagePoolImpl_aggregate_invariant:
  assumes inv: "total_size s = LargePagePoolImpl_ComputeTotalSize s"
  shows
   "(\<exists>admitted rest s'.
        LargePagePoolImpl_Add debug max_total_size candidates time s
          = Inr (admitted \<noteq> [], rest, s') \<and>
        s' = s\<lparr>total_size := total_size s + sum_list (map size_bytes admitted),
               pages := pages s @ map (Pair time) admitted\<rparr> \<and>
        total_size s' = LargePagePoolImpl_ComputeTotalSize s' \<and>
        (total_size s \<le> max_total_size \<longrightarrow> total_size s' \<le> max_total_size) \<and>
        mset candidates = mset rest + mset admitted \<and>
        subseq rest candidates \<and> subseq admitted candidates) \<and>
    (\<forall>page. LargePagePoolImpl_Add debug max_total_size [page] time s =
        (if max_total_size < total_size s + size_bytes page then Inr (False, [page], s)
         else Inr (True, [],
                   s\<lparr>total_size := total_size s + size_bytes page,
                     pages := pages s @ [(time, page)]\<rparr>))) \<and>
    (\<exists>result s'. LargePagePoolImpl_Remove debug chunk_size s = Inr (result, s') \<and>
        total_size s' = LargePagePoolImpl_ComputeTotalSize s') \<and>
    (\<exists>freed s'. LargePagePoolImpl_ReleaseAll s = (freed, s') \<and>
        total_size s' = LargePagePoolImpl_ComputeTotalSize s' \<and>
        unat (total_size s') = retained_bytes s') \<and>
    (\<exists>freed entries s'. LargePagePoolImpl_ReleaseUpTo debug release_time s
          = Inr (freed, entries, s') \<and>
        total_size s' = LargePagePoolImpl_ComputeTotalSize s') \<and>
    (unat (total_size s) = retained_bytes s \<longrightarrow>
       (retained_bytes s + sum_list (map (\<lambda>page. unat (size_bytes page)) candidates) < 2 ^ 64 \<longrightarrow>
          (\<exists>added rest s'.
             LargePagePoolImpl_Add debug max_total_size candidates time s
               = Inr (added, rest, s') \<and>
             unat (total_size s') = retained_bytes s' \<and>
             (total_size s \<le> max_total_size \<longrightarrow> retained_bytes s' \<le> unat max_total_size))) \<and>
       (\<exists>result s'. LargePagePoolImpl_Remove debug chunk_size s = Inr (result, s') \<and>
          unat (total_size s') = retained_bytes s') \<and>
       (\<exists>freed entries s'. LargePagePoolImpl_ReleaseUpTo debug release_time s
            = Inr (freed, entries, s') \<and>
          unat (total_size s') = retained_bytes s'))"
proof (intro conjI allI impI)
  show "\<exists>admitted rest s'.
        LargePagePoolImpl_Add debug max_total_size candidates time s
          = Inr (admitted \<noteq> [], rest, s') \<and>
        s' = s\<lparr>total_size := total_size s + sum_list (map size_bytes admitted),
               pages := pages s @ map (Pair time) admitted\<rparr> \<and>
        total_size s' = LargePagePoolImpl_ComputeTotalSize s' \<and>
        (total_size s \<le> max_total_size \<longrightarrow> total_size s' \<le> max_total_size) \<and>
        mset candidates = mset rest + mset admitted \<and>
        subseq rest candidates \<and> subseq admitted candidates"
    by (rule LargePagePoolImpl_Add_result [OF inv])
next
  fix page
  show "LargePagePoolImpl_Add debug max_total_size [page] time s =
        (if max_total_size < total_size s + size_bytes page then Inr (False, [page], s)
         else Inr (True, [],
                   s\<lparr>total_size := total_size s + size_bytes page,
                     pages := pages s @ [(time, page)]\<rparr>))"
    by (rule LargePagePoolImpl_Add_one [OF inv])
next
  show "\<exists>result s'. LargePagePoolImpl_Remove debug chunk_size s = Inr (result, s') \<and>
        total_size s' = LargePagePoolImpl_ComputeTotalSize s'"
    by (rule LargePagePoolImpl_Remove_invariant [OF inv])
next
  show "\<exists>freed s'. LargePagePoolImpl_ReleaseAll s = (freed, s') \<and>
        total_size s' = LargePagePoolImpl_ComputeTotalSize s' \<and>
        unat (total_size s') = retained_bytes s'"
    by (simp add: LargePagePoolImpl_ReleaseAll_def LargePagePoolImpl_ComputeTotalSize_def
        retained_bytes_def)
next
  show "\<exists>freed entries s'. LargePagePoolImpl_ReleaseUpTo debug release_time s
          = Inr (freed, entries, s') \<and>
        total_size s' = LargePagePoolImpl_ComputeTotalSize s'"
    by (rule LargePagePoolImpl_ReleaseUpTo_invariant [OF inv])
next
  assume "unat (total_size s) = retained_bytes s"
    and "retained_bytes s + sum_list (map (\<lambda>page. unat (size_bytes page)) candidates) < 2 ^ 64"
  then show "\<exists>added rest s'.
             LargePagePoolImpl_Add debug max_total_size candidates time s
               = Inr (added, rest, s') \<and>
             unat (total_size s') = retained_bytes s' \<and>
             (total_size s \<le> max_total_size \<longrightarrow> retained_bytes s' \<le> unat max_total_size)"
    by (rule LargePagePoolImpl_Add_exact)
next
  assume "unat (total_size s) = retained_bytes s"
  then show "\<exists>result s'. LargePagePoolImpl_Remove debug chunk_size s = Inr (result, s') \<and>
          unat (total_size s') = retained_bytes s'"
    by (rule LargePagePoolImpl_Remove_exact)
next
  assume "unat (total_size s) = retained_bytes s"
  then show "\<exists>freed entries s'. LargePagePoolImpl_ReleaseUpTo debug release_time s
            = Inr (freed, entries, s') \<and>
          unat (total_size s') = retained_bytes s'"
    by (rule LargePagePoolImpl_ReleaseUpTo_exact)
qed

theorem LargePagePoolImpl_aggregate_invariant_witness:
  "total_size \<lparr>pages = [(1, \<lparr>metadata_address = 4096, size_bytes = 100\<rparr>)], total_size = 100\<rparr>
     = LargePagePoolImpl_ComputeTotalSize
         \<lparr>pages = [(1, \<lparr>metadata_address = 4096, size_bytes = 100\<rparr>)], total_size = 100\<rparr> \<and>
   unat (total_size
         \<lparr>pages = [(1, \<lparr>metadata_address = 4096, size_bytes = 100\<rparr>)], total_size = 100\<rparr>)
     = retained_bytes
         \<lparr>pages = [(1, \<lparr>metadata_address = 4096, size_bytes = 100\<rparr>)], total_size = 100\<rparr> \<and>
   LargePagePoolImpl_Add True 250 [\<lparr>metadata_address = 8192, size_bytes = 200\<rparr>] 7
       \<lparr>pages = [(1, \<lparr>metadata_address = 4096, size_bytes = 100\<rparr>)], total_size = 100\<rparr>
     = Inr (False, [\<lparr>metadata_address = 8192, size_bytes = 200\<rparr>],
         \<lparr>pages = [(1, \<lparr>metadata_address = 4096, size_bytes = 100\<rparr>)], total_size = 100\<rparr>) \<and>
   LargePagePoolImpl_Add True 250 [\<lparr>metadata_address = 12288, size_bytes = 150\<rparr>] 7
       \<lparr>pages = [(1, \<lparr>metadata_address = 4096, size_bytes = 100\<rparr>)], total_size = 100\<rparr>
     = Inr (True, [],
         \<lparr>pages = [(1, \<lparr>metadata_address = 4096, size_bytes = 100\<rparr>),
                   (7, \<lparr>metadata_address = 12288, size_bytes = 150\<rparr>)], total_size = 250\<rparr>) \<and>
   (\<exists>result s'. LargePagePoolImpl_Remove True 50
       \<lparr>pages = [(1, \<lparr>metadata_address = 4096, size_bytes = 100\<rparr>)], total_size = 100\<rparr>
         = Inr (result, s') \<and>
       unat (total_size s') = retained_bytes s') \<and>
   (\<exists>freed entries s'. LargePagePoolImpl_ReleaseUpTo True 1
       \<lparr>pages = [(1, \<lparr>metadata_address = 4096, size_bytes = 100\<rparr>)], total_size = 100\<rparr>
         = Inr (freed, entries, s') \<and>
       unat (total_size s') = retained_bytes s')"
proof -
  let ?s = "\<lparr>pages = [(1, \<lparr>metadata_address = 4096, size_bytes = 100\<rparr>)], total_size = 100\<rparr>"
  have inv: "total_size ?s = LargePagePoolImpl_ComputeTotalSize ?s"
    by (simp add: LargePagePoolImpl_ComputeTotalSize_def)
  have exact: "unat (total_size ?s) = retained_bytes ?s"
    by (simp add: retained_bytes_def)
  note t = LargePagePoolImpl_aggregate_invariant [OF inv, of True 250 "[]" 7 50 1]
  from t have one: "LargePagePoolImpl_Add True 250 [page] 7 ?s =
        (if 250 < total_size ?s + size_bytes page then Inr (False, [page], ?s)
         else Inr (True, [],
                   ?s\<lparr>total_size := total_size ?s + size_bytes page,
                     pages := pages ?s @ [(7, page)]\<rparr>))" for page
    by blast
  have a1: "LargePagePoolImpl_Add True 250 [\<lparr>metadata_address = 8192, size_bytes = 200\<rparr>] 7 ?s
     = Inr (False, [\<lparr>metadata_address = 8192, size_bytes = 200\<rparr>], ?s)"
    unfolding one by simp
  have a2: "LargePagePoolImpl_Add True 250 [\<lparr>metadata_address = 12288, size_bytes = 150\<rparr>] 7 ?s
     = Inr (True, [],
         \<lparr>pages = [(1, \<lparr>metadata_address = 4096, size_bytes = 100\<rparr>),
                   (7, \<lparr>metadata_address = 12288, size_bytes = 150\<rparr>)], total_size = 250\<rparr>)"
    unfolding one by simp
  from t exact have r: "\<exists>result s'. LargePagePoolImpl_Remove True 50 ?s = Inr (result, s') \<and>
       unat (total_size s') = retained_bytes s'"
    by blast
  from t exact have u: "\<exists>freed entries s'. LargePagePoolImpl_ReleaseUpTo True 1 ?s
         = Inr (freed, entries, s') \<and>
       unat (total_size s') = retained_bytes s'"
    by blast
  from inv exact a1 a2 r u show ?thesis
    by (intro conjI)
qed

subsection \<open>Large pages do not depend on the requesting isolate\<close>

text \<open>
  Claim C10. \<open>PagePool::RemoveLarge(isolate, chunk_size)\<close> gives the same result and
  the same state for any two isolates: the page returned and the large page pool
  afterwards are those of \<open>LargePagePoolImpl::Remove(chunk_size)\<close> on the large page
  pool, and the other parts of the facade are unchanged.
\<close>

theorem PagePool_RemoveLarge_ignores_isolate:
  "PagePool_RemoveLarge debug isolate1 chunk_size s
     = PagePool_RemoveLarge debug isolate2 chunk_size s \<and>
   map_sum id (\<lambda>(result, s'). (result, large_pool s'))
       (PagePool_RemoveLarge debug isolate1 chunk_size s)
     = LargePagePoolImpl_Remove debug chunk_size (large_pool s) \<and>
   map_sum id (\<lambda>(result, s'). (page_pool s', zone_pool s', next_time s'))
       (PagePool_RemoveLarge debug isolate1 chunk_size s)
     = map_sum id (\<lambda>r. (page_pool s, zone_pool s, next_time s))
         (LargePagePoolImpl_Remove debug chunk_size (large_pool s))"
  by (cases "LargePagePoolImpl_Remove debug chunk_size (large_pool s)")
     (auto simp: PagePool_RemoveLarge_def)

subsection \<open>Tear-down of the sub-pools\<close>

text \<open>
  Claim C9 says that \<open>TearDown\<close> on a sub-pool with non-empty local state always
  aborts. In a build without debug checks \<open>PoolImpl::TearDown\<close> returns normally on
  a pool whose local map is not empty: its assertion is a \<open>DCHECK\<close>.
\<close>

theorem PoolImpl_TearDown_returns_without_debug_checks:
  "local_pools \<lparr>local_pools = fmupd 1 [10::int] fmempty, shared_pool = [(2, [20])]\<rparr> \<noteq> fmempty \<and>
   PoolImpl_TearDown False \<lparr>local_pools = fmupd 1 [10::int] fmempty, shared_pool = [(2, [20])]\<rparr>
     = Inr \<lparr>local_pools = fmupd 1 [10] fmempty, shared_pool = []\<rparr>"
  by (simp add: PoolImpl_TearDown_def DCHECK_def)

text \<open>
  Claim C9, amended. In a build with debug checks \<open>PoolImpl::TearDown\<close> aborts when
  the local map is not empty; \<open>LargePagePoolImpl::TearDown\<close> aborts in every build
  when its entries are not empty. \<open>PoolImpl::TearDown\<close> returns, with the shared
  pool cleared and the local map as it was, when the local map is empty or the build
  has no debug checks; \<open>LargePagePoolImpl::TearDown\<close> returns when there are no
  entries. The tear-down of the facade aborts when a sub-pool's does.
\<close>

theorem TearDown_checks:
  "(local_pools s \<noteq> fmempty \<longrightarrow> PoolImpl_TearDown True s = Inl CheckFailed) \<and>
   (pages l \<noteq> [] \<longrightarrow> LargePagePoolImpl_TearDown l = Inl CheckFailed) \<and>
   (\<not> debug \<or> local_pools s = fmempty \<longrightarrow>
      PoolImpl_TearDown debug s = Inr (s\<lparr>shared_pool := []\<rparr>)) \<and>
   (pages l = [] \<longrightarrow> LargePagePoolImpl_TearDown l = Inr ()) \<and>
   (debug \<and> (local_pools (page_pool f) \<noteq> fmempty \<or> local_pools (zone_pool f) \<noteq> fmempty)
      \<or> pages (large_pool f) \<noteq> [] \<longrightarrow>
      PagePool_TearDown debug f = Inl CheckFailed)"
  by (auto simp: PoolImpl_TearDown_def LargePagePoolImpl_TearDown_def PagePool_TearDown_def
      DCHECK_def CHECK_def split: sum.splits)

theorem TearDown_checks_witness:
  "local_pools \<lparr>local_pools = fmupd 1 [10::int] fmempty, shared_pool = [(2, [20])]\<rparr> \<noteq> fmempty \<and>
   PoolImpl_TearDown True \<lparr>local_pools = fmupd 1 [10::int] fmempty, shared_pool = [(2, [20])]\<rparr>
     = Inl CheckFailed \<and>
   pages \<lparr>pages = [(1, \<lparr>metadata_address = 4096, size_bytes = 100\<rparr>)], total_size = 100\<rparr> \<noteq> [] \<and>
   LargePagePoolImpl_TearDown
       \<lparr>pages = [(1, \<lparr>metadata_address = 4096, size_bytes = 100\<rparr>)], total_size = 100\<rparr>
     = Inl CheckFailed \<and>
   PoolImpl_TearDown True \<lparr>local_pools = fmempty, shared_pool = [(2, [20::int])]\<rparr>
     = Inr \<lparr>local_pools = fmempty, shared_pool = []\<rparr>"
proof -
  let ?s = "\<lparr>local_pools = fmupd 1 [10::int] fmempty, shared_pool = [(2, [20])]\<rparr>"
  let ?l = "\<lparr>pages = [(1, \<lparr>metadata_address = 4096, size_bytes = 100\<rparr>)], total_size = 100\<rparr>"
  let ?e = "\<lparr>local_pools = fmempty, shared_pool = [(2, [20::int])]\<rparr>"
  have n: "local_pools ?s \<noteq> fmempty" by simp
  have p: "pages ?l \<noteq> []" by simp
  have e: "\<not> True \<or> local_pools ?e = fmempty" by simp
  from TearDown_checks [of ?s ?l True] n p
  have "PoolImpl_TearDown True ?s = Inl CheckFailed"
    and "LargePagePoolImpl_TearDown ?l = Inl CheckFailed"
    by blast+
  moreover from TearDown_checks [of ?e ?l True] e
  have "PoolImpl_TearDown True ?e = Inr (?e\<lparr>shared_pool := []\<rparr>)"
    by blast
  ultimately show ?thesis
    using n p by simp
qed

end
